theory Spec2Isabelle
  imports Main "HOL-Library.Char_ord" "HOL-Library.List_Lexorder" "HOL-Library.Product_Lexorder"
begin

section \<open>Object ids, strings and HTTP outcomes\<close>

text \<open>
  The document store identifies every document by an ObjectId: twelve bytes, read from
  a string of 24 hexadecimal digits of either case and printed in lower case.  The
  controllers receive ids as request strings and compare them after \<open>String(...)\<close>,
  so both forms are kept apart: \<open>Oid s\<close> holds the printed (lower-case) form.
\<close>

datatype ObjectId = Oid string

definition isHex :: "char \<Rightarrow> bool" where
  "isHex c = (c \<in> set ''0123456789abcdefABCDEF'')"

definition toLowerHex :: "char \<Rightarrow> char" where
  "toLowerHex c =
     (if c = CHR ''A'' then CHR ''a'' else if c = CHR ''B'' then CHR ''b''
      else if c = CHR ''C'' then CHR ''c'' else if c = CHR ''D'' then CHR ''d''
      else if c = CHR ''E'' then CHR ''e'' else if c = CHR ''F'' then CHR ''f'' else c)"

text \<open>
  \<open>mongoose.Types.ObjectId.isValid\<close> on a request string: 24 hexadecimal digits.  (The
  other forms some driver versions accept, such as any string of 12 characters, are not
  ids that \<open>createFromHexString\<close> reads, and are left out.)
\<close>

definition isValidId :: "string \<Rightarrow> bool" where
  "isValidId s = (length s = 24 \<and> list_all isHex s)"

text \<open>The cast of a valid id string to an ObjectId (\<open>findById\<close>, \<open>$in\<close> on \<open>_id\<close>).\<close>

definition castObjectId :: "string \<Rightarrow> ObjectId" where
  "castObjectId s = Oid (map toLowerHex s)"

text \<open>\<open>String(id)\<close> of an ObjectId: its lower-case hexadecimal text.\<close>

fun String_of :: "ObjectId \<Rightarrow> string" where
  "String_of (Oid s) = s"

text \<open>
  A handler ends with a status and a message (\<open>res.status(n).json({error})\<close>), or hands an
  exception to the error handler (\<open>next(err)\<close>, here \<open>Thrown\<close>).
\<close>

datatype failure =
    Http400 string
  | Http401 string
  | Http403 string
  | Http404 string
  | Http409 string
  | Http500 string
  | Thrown string

text \<open>\<open>String.prototype.trim\<close>, on strings of code units below 256.\<close>

definition isWhiteSpace :: "char \<Rightarrow> bool" where
  "isWhiteSpace c =
     (c \<in> set [CHR 0x09, CHR 0x0A, CHR 0x0B, CHR 0x0C, CHR 0x0D, CHR 0x20, CHR 0xA0])"

definition trim :: "string \<Rightarrow> string" where
  "trim s = rev (dropWhile isWhiteSpace (rev (dropWhile isWhiteSpace s)))"

section \<open>Documents and collections\<close>

text \<open>
  The documents of the four collections.  The field \<open>_id\<close> is \<open>u_id\<close>, \<open>p_id\<close>, \<open>i_id\<close>
  and \<open>c_id\<close>; the field \<open>key\<close> is \<open>p_key\<close> of a project and \<open>i_key\<close> of an issue
  (\<open>None\<close> while the issue has none); \<open>type\<close> is \<open>i_type\<close>.  Times are counted in ticks.
\<close>

record user =
  u_id :: ObjectId
  role :: string
  isActive :: bool

record project =
  p_id :: ObjectId
  p_key :: string
  name :: string
  description :: string
  leadUserId :: ObjectId
  members :: "ObjectId list"
  nextIssueSeq :: nat

text \<open>
  An issue, with the fields that the claims read or that the schema validates by value.
  Description, assignee, labels, watchers, attachments, the status history and the
  timestamps are left out.
\<close>

record issue =
  i_id :: ObjectId
  projectId :: ObjectId
  i_key :: "string option"
  title :: string
  i_type :: string
  status :: string
  priority :: string
  severity :: string
  reporterId :: ObjectId
  commentCount :: int

record comment =
  c_id :: ObjectId
  issueId :: ObjectId
  authorId :: ObjectId
  body :: string
  parentId :: "ObjectId option"
  ancestors :: "ObjectId list"
  edited :: bool
  deleted :: bool
  createdAt :: nat

record db =
  users :: "user list"
  projects :: "project list"
  issues :: "issue list"
  comments :: "comment list"

text \<open>A collection is the list of its documents in insertion order.\<close>

text \<open>\<open>updateOne\<close>: the first document that matches the filter is updated, if any.\<close>

fun updateFirst :: "('a \<Rightarrow> bool) \<Rightarrow> ('a \<Rightarrow> 'a) \<Rightarrow> 'a list \<Rightarrow> 'a list" where
  "updateFirst P f [] = []"
| "updateFirst P f (x # xs) = (if P x then f x # xs else x # updateFirst P f xs)"

definition User_findById :: "db \<Rightarrow> ObjectId \<Rightarrow> user option" where
  "User_findById d i = find (\<lambda>u. u_id u = i) (users d)"

definition Project_findById :: "db \<Rightarrow> ObjectId \<Rightarrow> project option" where
  "Project_findById d i = find (\<lambda>p. p_id p = i) (projects d)"

definition Issue_findById :: "db \<Rightarrow> ObjectId \<Rightarrow> issue option" where
  "Issue_findById d i = find (\<lambda>x. i_id x = i) (issues d)"

definition Comment_findById :: "db \<Rightarrow> ObjectId \<Rightarrow> comment option" where
  "Comment_findById d i = find (\<lambda>c. c_id c = i) (comments d)"

section \<open>Request context and access decisions (rbac.js, commentController.js)\<close>

text \<open>What the middleware has attached to the request so far.\<close>

record ctx =
  authUser :: "user option"
  req_project :: "project option"
  req_issue :: "issue option"
  req_comment :: "comment option"

definition requireProjectMemberOrAdmin :: "ctx \<Rightarrow> failure + ctx" where
  "requireProjectMemberOrAdmin r =
     (case (authUser r, req_project r) of
        (Some u, Some p) \<Rightarrow>
          (let isAdmin = (role u = ''admin'');
               isLead = (String_of (leadUserId p) = String_of (u_id u));
               isMember = list_ex (\<lambda>m. String_of m = String_of (u_id u)) (members p)
           in if \<not> (isAdmin \<or> isLead \<or> isMember)
              then Inl (Http403 ''Project access denied.'')
              else Inr r)
      | _ \<Rightarrow> Inl (Http500 ''Auth or project context missing.''))"

definition requireProjectLeadOrAdmin :: "ctx \<Rightarrow> failure + ctx" where
  "requireProjectLeadOrAdmin r =
     (case (authUser r, req_project r) of
        (Some u, Some p) \<Rightarrow>
          (let isAdmin = (role u = ''admin'');
               isLead = (String_of (leadUserId p) = String_of (u_id u))
           in if \<not> (isAdmin \<or> isLead)
              then Inl (Http403 ''Lead or admin role required.'')
              else Inr r)
      | _ \<Rightarrow> Inl (Http500 ''Auth or project context missing.''))"

definition canEditOrModerate :: "user option \<Rightarrow> project option \<Rightarrow> comment option \<Rightarrow> bool" where
  "canEditOrModerate user project comment =
     (case (user, project, comment) of
        (Some u, Some p, Some c) \<Rightarrow>
          (if role u = ''admin'' then True
           else if String_of (leadUserId p) = String_of (u_id u) then True
           else String_of (authorId c) = String_of (u_id u))
      | _ \<Rightarrow> False)"

section \<open>Comment model (commentModel.js)\<close>

text \<open>
  Schema validation of a comment on save: \<open>body\<close> is required unless the comment is
  deleted, and holds at most 5000 characters.
\<close>

definition Comment_validate :: "comment \<Rightarrow> bool" where
  "Comment_validate c = ((deleted c \<or> body c \<noteq> []) \<and> length (body c) \<le> 5000)"

text \<open>\<open>doc.save()\<close> of a loaded comment: validate, then replace the stored document.\<close>

definition Comment_save :: "db \<Rightarrow> comment \<Rightarrow> failure + db" where
  "Comment_save d c =
     (if \<not> Comment_validate c then Inl (Thrown ''ValidationError'')
      else Inr (d\<lparr>comments := updateFirst (\<lambda>x. c_id x = c_id c) (\<lambda>x. c) (comments d)\<rparr>))"

text \<open>
  \<open>Comment.create\<close>: validate, then insert; the store refuses a second document with
  the same \<open>_id\<close>.  The driver supplies the new \<open>_id\<close> and the creation time.
\<close>

definition Comment_create :: "db \<Rightarrow> comment \<Rightarrow> failure + db" where
  "Comment_create d c =
     (if \<not> Comment_validate c then Inl (Thrown ''ValidationError'')
      else if list_ex (\<lambda>x. c_id x = c_id c) (comments d) then Inl (Thrown ''E11000 duplicate key'')
      else Inr (d\<lparr>comments := comments d @ [c]\<rparr>))"

text \<open>\<open>Issue.updateOne({_id}, {$inc: {commentCount: n}})\<close>.\<close>

definition Issue_incCommentCount :: "db \<Rightarrow> ObjectId \<Rightarrow> int \<Rightarrow> db" where
  "Issue_incCommentCount d i n =
     d\<lparr>issues := updateFirst (\<lambda>x. i_id x = i) (\<lambda>x. x\<lparr>commentCount := commentCount x + n\<rparr>)
                     (issues d)\<rparr>"

section \<open>Comment controller: edit and soft delete\<close>

definition updateComment :: "db \<Rightarrow> ctx \<Rightarrow> string option \<Rightarrow> (failure + comment) \<times> db" where
  "updateComment d r reqBody =
     (case req_comment r of
        None \<Rightarrow> (Inl (Thrown ''TypeError''), d)
      | Some rc \<Rightarrow>
         (case Comment_findById d (c_id rc) of
            None \<Rightarrow> (Inl (Http404 ''Comment not found.''), d)
          | Some commentDoc \<Rightarrow>
             if \<not> canEditOrModerate (authUser r) (req_project r) (Some commentDoc)
             then (Inl (Http403 ''Not allowed to edit this comment.''), d)
             else (case reqBody of
                None \<Rightarrow> (Inl (Http400 ''body is required.''), d)
              | Some b \<Rightarrow>
                 if trim b = [] then (Inl (Http400 ''body cannot be empty.''), d)
                 else (let doc' = commentDoc\<lparr>body := trim b, edited := True\<rparr>
                       in case Comment_save d doc' of
                            Inl e \<Rightarrow> (Inl e, d)
                          | Inr d' \<Rightarrow> (Inr doc', d')))))"

definition deleteComment :: "db \<Rightarrow> ctx \<Rightarrow> (failure + unit) \<times> db" where
  "deleteComment d r =
     (case req_comment r of
        None \<Rightarrow> (Inl (Thrown ''TypeError''), d)
      | Some rc \<Rightarrow>
         (case Comment_findById d (c_id rc) of
            None \<Rightarrow> (Inl (Http404 ''Comment not found.''), d)
          | Some commentDoc \<Rightarrow>
             if \<not> canEditOrModerate (authUser r) (req_project r) (Some commentDoc)
             then (Inl (Http403 ''Not allowed to delete this comment.''), d)
             else if deleted commentDoc then (Inr (), d)
             else (case Comment_save d (commentDoc\<lparr>deleted := True, body := []\<rparr>) of
                     Inl e \<Rightarrow> (Inl e, d)
                   | Inr d' \<Rightarrow>
                      (case req_issue r of
                         None \<Rightarrow> (Inl (Thrown ''TypeError''), d')
                       | Some i \<Rightarrow> (Inr (), Issue_incCommentCount d' (i_id i) (- 1))))))"

section \<open>Loaders (rbac.js, issueLoader.js, commentLoader.js)\<close>

definition emptyCtx :: ctx where
  "emptyCtx = \<lparr>authUser = None, req_project = None, req_issue = None, req_comment = None\<rparr>"

text \<open>
  \<open>loadCurrentUser\<close>: \<open>userId\<close> is \<open>req.user?.id\<close>, the caller id of the verified token.
\<close>

definition loadCurrentUser :: "db \<Rightarrow> string option \<Rightarrow> ctx \<Rightarrow> failure + ctx" where
  "loadCurrentUser d userId r =
     (case userId of
        None \<Rightarrow> Inl (Http401 ''Invalid user token.'')
      | Some uid \<Rightarrow>
         if uid = [] \<or> \<not> isValidId uid then Inl (Http401 ''Invalid user token.'')
         else (case User_findById d (castObjectId uid) of
                 None \<Rightarrow> Inl (Http403 ''User not active or not found.'')
               | Some u \<Rightarrow>
                  if \<not> isActive u then Inl (Http403 ''User not active or not found.'')
                  else Inr (r\<lparr>authUser := Some u\<rparr>)))"

definition loadProject :: "db \<Rightarrow> string \<Rightarrow> ctx \<Rightarrow> failure + ctx" where
  "loadProject d idParam r =
     (if \<not> isValidId idParam then Inl (Http400 ''Invalid project id.'')
      else (case Project_findById d (castObjectId idParam) of
              None \<Rightarrow> Inl (Http404 ''Project not found.'')
            | Some p \<Rightarrow> Inr (r\<lparr>req_project := Some p\<rparr>)))"

definition loadIssue :: "db \<Rightarrow> string \<Rightarrow> ctx \<Rightarrow> failure + ctx" where
  "loadIssue d idParam r =
     (if \<not> isValidId idParam then Inl (Http400 ''Invalid issue id.'')
      else (case Issue_findById d (castObjectId idParam) of
              None \<Rightarrow> Inl (Http404 ''Issue not found.'')
            | Some i \<Rightarrow>
               (case Project_findById d (projectId i) of
                  None \<Rightarrow> Inl (Http404 ''Project not found.'')
                | Some p \<Rightarrow> Inr (r\<lparr>req_issue := Some i, req_project := Some p\<rparr>))))"

definition loadComment :: "db \<Rightarrow> string \<Rightarrow> ctx \<Rightarrow> failure + ctx" where
  "loadComment d idParam r =
     (if \<not> isValidId idParam then Inl (Http400 ''Invalid comment id.'')
      else (case Comment_findById d (castObjectId idParam) of
              None \<Rightarrow> Inl (Http404 ''Comment not found.'')
            | Some c \<Rightarrow>
               (case Issue_findById d (issueId c) of
                  None \<Rightarrow> Inl (Http404 ''Issue not found for comment.'')
                | Some i \<Rightarrow>
                   (case Project_findById d (projectId i) of
                      None \<Rightarrow> Inl (Http404 ''Project not found for comment.'')
                    | Some p \<Rightarrow>
                       Inr (r\<lparr>req_comment := Some c, req_issue := Some i,
                              req_project := Some p\<rparr>)))))"

section \<open>Comment controller: create\<close>

text \<open>
  \<open>createComment\<close>: \<open>idParam\<close> is the route's issue id (\<open>req.params.id\<close>), \<open>reqBody\<close> and \<open>reqParentId\<close> are
  the fields \<open>body\<close> and \<open>parentId\<close> of the request (\<open>None\<close> when absent or null);
  \<open>newId\<close> and \<open>now\<close> are the \<open>_id\<close> and the creation time the driver gives the new
  document.
\<close>

definition createComment ::
  "db \<Rightarrow> ObjectId \<Rightarrow> nat \<Rightarrow> ctx \<Rightarrow> string \<Rightarrow> string option \<Rightarrow> string option
     \<Rightarrow> (failure + comment) \<times> db" where
  "createComment d newId now r idParam reqBody reqParentId =
     (if \<not> isValidId idParam then (Inl (Http400 ''Invalid issue id.''), d)
      else
       (case (case req_issue r of Some i \<Rightarrow> Some i
                                | None \<Rightarrow> Issue_findById d (castObjectId idParam)) of
          None \<Rightarrow> (Inl (Http404 ''Issue not found.''), d)
        | Some issue \<Rightarrow>
       (case (case req_project r of Some p \<Rightarrow> Some p
                                  | None \<Rightarrow> Project_findById d (projectId issue)) of
          None \<Rightarrow> (Inl (Http404 ''Project not found.''), d)
        | Some project \<Rightarrow>
       (case authUser r of
          None \<Rightarrow> (Inl (Http401 ''Auth required.''), d)
        | Some user \<Rightarrow>
       (case reqBody of
          None \<Rightarrow> (Inl (Http400 ''body is required.''), d)
        | Some b \<Rightarrow>
          if trim b = [] then (Inl (Http400 ''body is required.''), d)
          else
           (case (case reqParentId of
                    None \<Rightarrow> Inr []
                  | Some pid \<Rightarrow>
                     if \<not> isValidId pid then Inl (Http400 ''Invalid parentId.'')
                     else (case Comment_findById d (castObjectId pid) of
                             None \<Rightarrow> Inl (Http404 ''Parent comment not found.'')
                           | Some parent \<Rightarrow>
                              if String_of (issueId parent) \<noteq> String_of (i_id issue)
                              then Inl (Http400 ''Parent belongs to a different issue.'')
                              else Inr (ancestors parent @ [c_id parent]))) of
              Inl e \<Rightarrow> (Inl e, d)
            | Inr anc \<Rightarrow>
               (let c = \<lparr>c_id = newId, issueId = i_id issue, authorId = u_id user,
                         body = trim b, parentId = map_option castObjectId reqParentId,
                         ancestors = anc, edited = False, deleted = False, createdAt = now\<rparr>
                in case Comment_create d c of
                     Inl e \<Rightarrow> (Inl e, d)
                   | Inr d' \<Rightarrow> (Inr c, Issue_incCommentCount d' (i_id issue) 1))))))))"

section \<open>Comment routes (commentRoutes.js)\<close>

text \<open>
  A route runs its middleware in order and stops at the first response.  \<open>tok\<close> is the
  caller id that \<open>verifyJWT\<close> took from the token.
\<close>

definition POST_issues_id_comments ::
  "db \<Rightarrow> ObjectId \<Rightarrow> nat \<Rightarrow> string option \<Rightarrow> string \<Rightarrow> string option \<Rightarrow> string option
     \<Rightarrow> (failure + comment) \<times> db" where
  "POST_issues_id_comments d newId now tok idParam reqBody reqParentId =
     (case loadCurrentUser d tok emptyCtx of
        Inl e \<Rightarrow> (Inl e, d)
      | Inr r1 \<Rightarrow>
         (case loadIssue d idParam r1 of
            Inl e \<Rightarrow> (Inl e, d)
          | Inr r2 \<Rightarrow>
             (case requireProjectMemberOrAdmin r2 of
                Inl e \<Rightarrow> (Inl e, d)
              | Inr r3 \<Rightarrow> createComment d newId now r3 idParam reqBody reqParentId)))"


definition DELETE_comments_id :: "db \<Rightarrow> string option \<Rightarrow> string \<Rightarrow> (failure + unit) \<times> db" where
  "DELETE_comments_id d tok idParam =
     (case loadCurrentUser d tok emptyCtx of
        Inl e \<Rightarrow> (Inl e, d)
      | Inr r1 \<Rightarrow>
         (case loadComment d idParam r1 of
            Inl e \<Rightarrow> (Inl e, d)
          | Inr r2 \<Rightarrow>
             (case requireProjectMemberOrAdmin r2 of
                Inl e \<Rightarrow> (Inl e, d)
              | Inr r3 \<Rightarrow> deleteComment d r3)))"

section \<open>Example documents\<close>

definition exAdmin :: user where
  "exAdmin = \<lparr>u_id = Oid ''aaaaaaaaaaaaaaaaaaaaaa00'', role = ''admin'', isActive = True\<rparr>"

definition exLead :: user where
  "exLead = \<lparr>u_id = Oid ''aaaaaaaaaaaaaaaaaaaaaa01'', role = ''manager'', isActive = True\<rparr>"

definition exDev :: user where
  "exDev = \<lparr>u_id = Oid ''aaaaaaaaaaaaaaaaaaaaaa02'', role = ''developer'', isActive = True\<rparr>"

definition exOther :: user where
  "exOther = \<lparr>u_id = Oid ''aaaaaaaaaaaaaaaaaaaaaa03'', role = ''developer'', isActive = True\<rparr>"

definition exProject :: project where
  "exProject = \<lparr>p_id = Oid ''bbbbbbbbbbbbbbbbbbbbbb01'', p_key = ''BT'', name = ''Bug Tracker'',
     description = [], leadUserId = Oid ''aaaaaaaaaaaaaaaaaaaaaa01'',
     members = [Oid ''aaaaaaaaaaaaaaaaaaaaaa01'', Oid ''aaaaaaaaaaaaaaaaaaaaaa02''],
     nextIssueSeq = 2\<rparr>"

definition exIssue :: issue where
  "exIssue = \<lparr>i_id = Oid ''cccccccccccccccccccccc01'', projectId = Oid ''bbbbbbbbbbbbbbbbbbbbbb01'',
     i_key = Some ''BT-1'', title = ''Login fails'', i_type = ''bug'', status = ''open'',
     priority = ''medium'', severity = ''major'', reporterId = Oid ''aaaaaaaaaaaaaaaaaaaaaa02'',
     commentCount = 2\<rparr>"

definition exComment :: comment where
  "exComment = \<lparr>c_id = Oid ''dddddddddddddddddddddd01'', issueId = Oid ''cccccccccccccccccccccc01'',
     authorId = Oid ''aaaaaaaaaaaaaaaaaaaaaa02'', body = ''first'', parentId = None,
     ancestors = [], edited = False, deleted = False, createdAt = 10\<rparr>"

text \<open>A reply written by \<open>exOther\<close>, who is no longer a member of the project.\<close>

definition exReply :: comment where
  "exReply = \<lparr>c_id = Oid ''dddddddddddddddddddddd02'', issueId = Oid ''cccccccccccccccccccccc01'',
     authorId = Oid ''aaaaaaaaaaaaaaaaaaaaaa03'', body = ''second'',
     parentId = Some (Oid ''dddddddddddddddddddddd01''),
     ancestors = [Oid ''dddddddddddddddddddddd01''], edited = False, deleted = False,
     createdAt = 20\<rparr>"

text \<open>A soft-deleted top-level comment.\<close>

definition exDeleted :: comment where
  "exDeleted = \<lparr>c_id = Oid ''dddddddddddddddddddddd03'', issueId = Oid ''cccccccccccccccccccccc01'',
     authorId = Oid ''aaaaaaaaaaaaaaaaaaaaaa02'', body = [], parentId = None,
     ancestors = [], edited = False, deleted = True, createdAt = 30\<rparr>"

definition exDb :: db where
  "exDb = \<lparr>users = [exAdmin, exLead, exDev, exOther], projects = [exProject],
     issues = [exIssue], comments = [exComment, exReply, exDeleted]\<rparr>"

section \<open>Sequences of comment requests\<close>

text \<open>
  The creations and soft deletions of the counter-conservation property, as requests to
  the routes POST \<open>/issues/:id/comments\<close> and DELETE \<open>/comments/:id\<close>.
\<close>

datatype request =
    CreateRequest ObjectId nat "string option" string "string option" "string option"
  | DeleteRequest "string option" string

fun handle :: "db \<Rightarrow> request \<Rightarrow> db" where
  "handle d (CreateRequest newId now tok idParam reqBody reqParentId) =
     snd (POST_issues_id_comments d newId now tok idParam reqBody reqParentId)"
| "handle d (DeleteRequest tok idParam) = snd (DELETE_comments_id d tok idParam)"

text \<open>The request creates a comment on issue \<open>j\<close> (it is answered 201).\<close>

fun isCreate :: "db \<Rightarrow> ObjectId \<Rightarrow> request \<Rightarrow> bool" where
  "isCreate d j (CreateRequest newId now tok idParam reqBody reqParentId) =
     (case fst (POST_issues_id_comments d newId now tok idParam reqBody reqParentId) of
        Inr c \<Rightarrow> issueId c = j
      | Inl e \<Rightarrow> False)"
| "isCreate d j (DeleteRequest tok idParam) = False"

text \<open>
  The request is a first-time soft delete of a comment of issue \<open>j\<close>: it is answered 204
  and the comment was not deleted before.
\<close>

fun isFirstDelete :: "db \<Rightarrow> ObjectId \<Rightarrow> request \<Rightarrow> bool" where
  "isFirstDelete d j (DeleteRequest tok idParam) =
     (case fst (DELETE_comments_id d tok idParam) of
        Inr u \<Rightarrow>
          (case Comment_findById d (castObjectId idParam) of
             Some c \<Rightarrow> \<not> deleted c \<and> issueId c = j
           | None \<Rightarrow> False)
      | Inl e \<Rightarrow> False)"
| "isFirstDelete d j (CreateRequest newId now tok idParam reqBody reqParentId) = False"

fun run :: "db \<Rightarrow> request list \<Rightarrow> db" where
  "run d [] = d"
| "run d (q # qs) = run (handle d q) qs"

fun creates :: "db \<Rightarrow> ObjectId \<Rightarrow> request list \<Rightarrow> nat" where
  "creates d j [] = 0"
| "creates d j (q # qs) = (if isCreate d j q then 1 else 0) + creates (handle d q) j qs"

fun firstDeletes :: "db \<Rightarrow> ObjectId \<Rightarrow> request list \<Rightarrow> nat" where
  "firstDeletes d j [] = 0"
| "firstDeletes d j (q # qs) =
     (if isFirstDelete d j q then 1 else 0) + firstDeletes (handle d q) j qs"

section \<open>Comment controller: listings\<close>

text \<open>
  \<open>parseInt(s, 10)\<close>: leading white space is skipped, one sign is read, then the longest
  run of decimal digits; \<open>None\<close> is \<open>NaN\<close> (no digit).
\<close>

definition isDigit :: "char \<Rightarrow> bool" where
  "isDigit c = (c \<in> set ''0123456789'')"

text \<open>The value of a decimal digit: its place among the ten digits.\<close>

definition digitValue :: "char \<Rightarrow> nat" where
  "digitValue c = length (takeWhile (\<lambda>d. d \<noteq> c) ''0123456789'')"

definition decimalValue :: "string \<Rightarrow> nat" where
  "decimalValue ds = foldl (\<lambda>a c. 10 * a + digitValue c) 0 ds"

definition parseInt :: "string \<Rightarrow> int option" where
  "parseInt s =
     (let t = dropWhile isWhiteSpace s;
          neg = (case t of c # cs \<Rightarrow> c = CHR ''-'' | [] \<Rightarrow> False);
          u = (case t of c # cs \<Rightarrow> if c = CHR ''-'' \<or> c = CHR ''+'' then cs else t | [] \<Rightarrow> t);
          z = takeWhile isDigit u
      in if z = [] then None
         else Some ((if neg then - 1 else 1) * int (decimalValue z)))"

text \<open>\<open>req.query.x || dflt\<close>: an absent or empty query value gives the default.\<close>

definition queryOr :: "string option \<Rightarrow> string \<Rightarrow> string" where
  "queryOr q dflt = (case q of None \<Rightarrow> dflt | Some s \<Rightarrow> if s = [] then dflt else s)"

text \<open>
  The cursor of the store: \<open>.sort({createdAt: 1, _id: 1})\<close> orders by creation time and
  then by id (the bytes of an id in order, that is its printed text in order);
  \<open>.skip(n)\<close> drops \<open>n\<close> documents; \<open>.limit(n)\<close> keeps \<open>n\<close> documents, a limit of 0 is
  no limit, and a negative limit asks for \<open>|n|\<close> documents in one batch.
\<close>

definition cursor_sort :: "comment list \<Rightarrow> comment list" where
  "cursor_sort cs = sort_key (\<lambda>c. (createdAt c, String_of (c_id c))) cs"

definition cursor_limit :: "int \<Rightarrow> 'a list \<Rightarrow> 'a list" where
  "cursor_limit n xs = (if n = 0 then xs else take (nat \<bar>n\<bar>) xs)"

definition Comment_find :: "db \<Rightarrow> (comment \<Rightarrow> bool) \<Rightarrow> int \<Rightarrow> int \<Rightarrow> comment list" where
  "Comment_find d flt skip limit =
     cursor_limit limit (drop (nat skip) (cursor_sort (filter flt (comments d))))"

text \<open>
  \<open>listIssueComments\<close>: \<open>qLimit\<close> and \<open>qSkip\<close> are \<open>req.query.limit\<close> and
  \<open>req.query.skip\<close>.  The answer is the page of comments with the echo of skip and limit.
  A limit or skip that is \<open>NaN\<close> is refused by the store.
\<close>

definition listIssueComments ::
  "db \<Rightarrow> ctx \<Rightarrow> string \<Rightarrow> string option \<Rightarrow> string option
     \<Rightarrow> failure + (comment list \<times> int \<times> int)" where
  "listIssueComments d r idParam qLimit qSkip =
     (if \<not> isValidId idParam then Inl (Http400 ''Invalid issue id.'')
      else
       (case (case req_issue r of Some i \<Rightarrow> Some i
                                | None \<Rightarrow> Issue_findById d (castObjectId idParam)) of
          None \<Rightarrow> Inl (Http404 ''Issue not found.'')
        | Some issue \<Rightarrow>
           (case (map_option (\<lambda>n. min n 100) (parseInt (queryOr qLimit ''20'')),
                  map_option (\<lambda>n. max n 0) (parseInt (queryOr qSkip ''0''))) of
              (Some limit, Some skip) \<Rightarrow>
                Inr (Comment_find d
                       (\<lambda>c. issueId c = i_id issue \<and> parentId c = None \<and> deleted c = False)
                       skip limit,
                     skip, limit)
            | _ \<Rightarrow> Inl (Thrown ''limit or skip is NaN''))))"

definition listReplies ::
  "db \<Rightarrow> ctx \<Rightarrow> string \<Rightarrow> string option \<Rightarrow> string option \<Rightarrow> failure + comment list" where
  "listReplies d r idParam qLimit qSkip =
     (if \<not> isValidId idParam then Inl (Http400 ''Invalid comment id.'')
      else
       (case (case req_comment r of Some c \<Rightarrow> Some c
                                  | None \<Rightarrow> Comment_findById d (castObjectId idParam)) of
          None \<Rightarrow> Inl (Http404 ''Comment not found.'')
        | Some parent \<Rightarrow>
           (case (map_option (\<lambda>n. min n 200) (parseInt (queryOr qLimit ''50'')),
                  map_option (\<lambda>n. max n 0) (parseInt (queryOr qSkip ''0''))) of
              (Some limit, Some skip) \<Rightarrow>
                Inr (Comment_find d
                       (\<lambda>c. issueId c = issueId parent \<and> parentId c = Some (c_id parent) \<and>
                            deleted c = False)
                       skip limit)
            | _ \<Rightarrow> Inl (Thrown ''limit or skip is NaN''))))"

text \<open>An issue with 101 top-level comments, and a comment with 201 replies.\<close>

definition exHex3 :: "nat \<Rightarrow> string" where
  "exHex3 n = [''0123456789'' ! (n div 100), ''0123456789'' ! (n div 10 mod 10),
               ''0123456789'' ! (n mod 10)]"

definition exTopLevel :: "nat \<Rightarrow> comment" where
  "exTopLevel n = \<lparr>c_id = Oid (''eeeeeeeeeeeeeeeeeeeee'' @ exHex3 n),
     issueId = Oid ''cccccccccccccccccccccc01'', authorId = Oid ''aaaaaaaaaaaaaaaaaaaaaa02'',
     body = ''again'', parentId = None, ancestors = [], edited = False, deleted = False,
     createdAt = 100 + n\<rparr>"

definition exReplyTo :: "nat \<Rightarrow> comment" where
  "exReplyTo n = \<lparr>c_id = Oid (''fffffffffffffffffffff'' @ exHex3 n),
     issueId = Oid ''cccccccccccccccccccccc01'', authorId = Oid ''aaaaaaaaaaaaaaaaaaaaaa02'',
     body = ''me too'', parentId = Some (Oid ''dddddddddddddddddddddd01''),
     ancestors = [Oid ''dddddddddddddddddddddd01''], edited = False, deleted = False,
     createdAt = 100 + n\<rparr>"

definition exBusyDb :: db where
  "exBusyDb = \<lparr>users = [exAdmin, exLead, exDev, exOther], projects = [exProject],
     issues = [exIssue],
     comments = exComment # map exTopLevel [0..<101] @ map exReplyTo [0..<201]\<rparr>"

section \<open>Project controller (projectController.js)\<close>

text \<open>\<open>Array.from(new Set(xs))\<close>: the first occurrence of every element, in order.\<close>

definition Array_from_Set :: "'a list \<Rightarrow> 'a list" where
  "Array_from_Set xs = rev (remdups (rev xs))"

text \<open>\<open>User.countDocuments({_id: {$in: ids}})\<close>: the ids are cast to ObjectIds.\<close>

definition User_countDocuments_in :: "db \<Rightarrow> string list \<Rightarrow> nat" where
  "User_countDocuments_in d ids =
     length (filter (\<lambda>u. u_id u \<in> set (map castObjectId ids)) (users d))"

text \<open>\<open>ObjectId.createFromHexString\<close>, on a string that \<open>isValidId\<close> accepts.\<close>

definition createFromHexString :: "string \<Rightarrow> ObjectId" where
  "createFromHexString s = Oid (map toLowerHex s)"

text \<open>The array update operators \<open>$addToSet\<close> (with \<open>$each\<close>) and \<open>$pull\<close> (with \<open>$in\<close>).\<close>

definition addToSet :: "'a list \<Rightarrow> 'a list \<Rightarrow> 'a list" where
  "addToSet ms vs = foldl (\<lambda>acc v. if v \<in> set acc then acc else acc @ [v]) ms vs"

definition pull :: "'a list \<Rightarrow> 'a list \<Rightarrow> 'a list" where
  "pull ms vs = filter (\<lambda>m. m \<notin> set vs) ms"

text \<open>The test of \<open>/^[A-Z0-9]{2,10}$/\<close>.\<close>

definition keyFormat :: "string \<Rightarrow> bool" where
  "keyFormat k = (2 \<le> length k \<and> length k \<le> 10 \<and>
     list_all (\<lambda>c. c \<in> set ''ABCDEFGHIJKLMNOPQRSTUVWXYZ0123456789'') k)"

text \<open>
  Schema validation of a project (projectModel.js): the trimmed name holds 3 to 140
  characters, the trimmed description at most 2000.
\<close>

definition Project_validate :: "string \<Rightarrow> string \<Rightarrow> bool" where
  "Project_validate nm descr =
     (3 \<le> length (trim nm) \<and> length (trim nm) \<le> 140 \<and> length (trim descr) \<le> 2000)"

text \<open>
  \<open>createProject\<close>: \<open>reqKey\<close>, \<open>reqName\<close>, \<open>reqLead\<close> are the fields \<open>key\<close>, \<open>name\<close> and
  \<open>leadUserId\<close> of the request (\<open>None\<close> when absent), \<open>reqDescription\<close> and \<open>reqMembers\<close>
  the fields \<open>description\<close> and \<open>members\<close> with their defaults; \<open>newId\<close> is the \<open>_id\<close> of
  the new document.
\<close>

definition createProject ::
  "db \<Rightarrow> ObjectId \<Rightarrow> string option \<Rightarrow> string option \<Rightarrow> string \<Rightarrow> string option \<Rightarrow> string list
     \<Rightarrow> (failure + project) \<times> db" where
  "createProject d newId reqKey reqName reqDescription reqLead reqMembers =
     (case (reqKey, reqName, reqLead) of
        (Some k, Some nm, Some lead) \<Rightarrow>
          if trim k = [] \<or> trim nm = [] \<or> trim lead = []
          then (Inl (Http400 ''key, name, and leadUserId are required.''), d)
          else if \<not> keyFormat k
          then (Inl (Http400 ''key must be 2-10 chars (A-Z, 0-9).''), d)
          else if \<not> isValidId lead then (Inl (Http400 ''Invalid leadUserId.''), d)
          else
           (let uniqueUserIds = Array_from_Set (lead # reqMembers)
            in case find (\<lambda>uid. \<not> isValidId uid) uniqueUserIds of
                 Some uid \<Rightarrow> (Inl (Http400 (''Invalid user id in members: '' @ uid)), d)
               | None \<Rightarrow>
                  if User_countDocuments_in d uniqueUserIds \<noteq> length uniqueUserIds
                  then (Inl (Http400 ''One or more member ids do not exist.''), d)
                  else if list_ex (\<lambda>p. p_key p = k) (projects d)
                  then (Inl (Http409 ''Project key already exists.''), d)
                  else if \<not> Project_validate nm reqDescription
                  then (Inl (Thrown ''ValidationError''), d)
                  else if list_ex (\<lambda>p. p_id p = newId) (projects d)
                  then (Inl (Thrown ''E11000 duplicate key''), d)
                  else
                   (let project = \<lparr>p_id = newId, p_key = k, name = trim nm,
                          description = trim reqDescription, leadUserId = castObjectId lead,
                          members = map castObjectId uniqueUserIds, nextIssueSeq = 1\<rparr>
                    in (Inr project, d\<lparr>projects := projects d @ [project]\<rparr>)))
      | _ \<Rightarrow> (Inl (Http400 ''key, name, and leadUserId are required.''), d))"

text \<open>
  \<open>updateProject\<close>: the fields \<open>name\<close>, \<open>description\<close>, \<open>leadUserId\<close> of the request,
  \<open>None\<close> when undefined.  The answer is the document as \<open>findByIdAndUpdate\<close> returns it
  (after \<open>$set\<close>, before the lead is added to the members).
\<close>

definition updateProject ::
  "db \<Rightarrow> ctx \<Rightarrow> string option \<Rightarrow> string option \<Rightarrow> string option
     \<Rightarrow> (failure + project option) \<times> db" where
  "updateProject d r reqName reqDescription reqLead =
     (if (case reqName of Some nm \<Rightarrow> trim nm = [] | None \<Rightarrow> False)
      then (Inl (Http400 ''name cannot be empty.''), d)
      else if (case reqLead of Some lead \<Rightarrow> \<not> isValidId lead | None \<Rightarrow> False)
      then (Inl (Http400 ''Invalid leadUserId.''), d)
      else if (case reqLead of Some lead \<Rightarrow> User_findById d (castObjectId lead) = None
                             | None \<Rightarrow> False)
      then (Inl (Http400 ''Lead user does not exist.''), d)
      else
       (case req_project r of
          None \<Rightarrow> (Inl (Thrown ''TypeError''), d)
        | Some rp \<Rightarrow>
           if \<not> ((case reqName of Some nm \<Rightarrow> 3 \<le> length (trim nm) \<and> length (trim nm) \<le> 140
                                | None \<Rightarrow> True) \<and>
                  (case reqDescription of Some ds \<Rightarrow> length (trim ds) \<le> 2000 | None \<Rightarrow> True))
           then (Inl (Thrown ''ValidationError''), d)
           else
            (let set_fields = (\<lambda>p.
                   p\<lparr>name := (case reqName of Some nm \<Rightarrow> trim nm | None \<Rightarrow> name p),
                     description := (case reqDescription of Some ds \<Rightarrow> trim ds
                                                          | None \<Rightarrow> description p),
                     leadUserId := (case reqLead of Some lead \<Rightarrow> castObjectId lead
                                                  | None \<Rightarrow> leadUserId p)\<rparr>);
                 d1 = d\<lparr>projects := updateFirst (\<lambda>p. p_id p = p_id rp) set_fields (projects d)\<rparr>;
                 updated = Project_findById d1 (p_id rp)
             in case reqLead of
                  None \<Rightarrow> (Inr updated, d1)
                | Some lead \<Rightarrow>
                   (Inr updated,
                    d1\<lparr>projects := updateFirst (\<lambda>p. p_id p = p_id rp)
                           (\<lambda>p. p\<lparr>members := addToSet (members p) [castObjectId lead]\<rparr>)
                           (projects d1)\<rparr>))))"

text \<open>
  \<open>updateMembers\<close>: \<open>reqAdd\<close> and \<open>reqRemove\<close> are the arrays \<open>add\<close> and \<open>remove\<close> of the
  request (the empty list when the field is not an array).  The store refuses an update
  whose operators \<open>$addToSet\<close> and \<open>$pull\<close> both name the path \<open>members\<close>, so a request
  that both adds and removes fails in \<open>updateOne\<close>; an update without operators changes
  nothing.
\<close>

definition updateMembers ::
  "db \<Rightarrow> ctx \<Rightarrow> string list \<Rightarrow> string list \<Rightarrow> (failure + project option) \<times> db" where
  "updateMembers d r reqAdd reqRemove =
     (let addIds = filter (\<lambda>s. s \<noteq> []) reqAdd;
          removeIds = filter (\<lambda>s. s \<noteq> []) reqRemove
      in case find (\<lambda>uid. \<not> isValidId uid) (addIds @ removeIds) of
           Some uid \<Rightarrow> (Inl (Http400 (''Invalid user id: '' @ uid)), d)
         | None \<Rightarrow>
            (let allIds = Array_from_Set (addIds @ removeIds)
             in if User_countDocuments_in d allIds \<noteq> length allIds
                then (Inl (Http400 ''One or more user ids do not exist.''), d)
                else
                 (case req_project r of
                    None \<Rightarrow> (Inl (Thrown ''TypeError''), d)
                  | Some rp \<Rightarrow>
                     (let leadIdStr = String_of (leadUserId rp)
                      in if list_ex (\<lambda>s. s = leadIdStr) removeIds
                         then (Inl (Http400 ''Cannot remove the project lead from members.''), d)
                         else
                          (let addObjIds = map createFromHexString addIds;
                               removeObjIds = map createFromHexString removeIds
                           in if addIds \<noteq> [] \<and> removeIds \<noteq> []
                              then (Inl (Thrown ''ConflictingUpdateOperators''), d)
                              else
                               (let d1 = d\<lparr>projects := updateFirst (\<lambda>p. p_id p = p_id rp)
                                           (\<lambda>p. p\<lparr>members :=
                                              pull (addToSet (members p) addObjIds) removeObjIds\<rparr>)
                                           (projects d)\<rparr>
                                in (Inr (Project_findById d1 (p_id rp)), d1)))))))"

section \<open>Project routes (projectRoutes.js)\<close>

text \<open>The route POST \<open>/projects/:id/members\<close>, open to the lead and to admins.\<close>

definition POST_projects_id_members ::
  "db \<Rightarrow> string option \<Rightarrow> string \<Rightarrow> string list \<Rightarrow> string list
     \<Rightarrow> (failure + project option) \<times> db" where
  "POST_projects_id_members d tok idParam reqAdd reqRemove =
     (case loadCurrentUser d tok emptyCtx of
        Inl e \<Rightarrow> (Inl e, d)
      | Inr r1 \<Rightarrow>
         (case loadProject d idParam r1 of
            Inl e \<Rightarrow> (Inl e, d)
          | Inr r2 \<Rightarrow>
             (case requireProjectLeadOrAdmin r2 of
                Inl e \<Rightarrow> (Inl e, d)
              | Inr r3 \<Rightarrow> updateMembers d r3 reqAdd reqRemove)))"

section \<open>Issue model: the key generation hook (issueModel.js)\<close>

text \<open>
  The text of a sequence number in a template string: its decimal digits.  (The
  counter is a natural number here; the store's numbers print this way below
  \<open>10^21\<close>.)
\<close>

fun showNat :: "nat \<Rightarrow> string" where
  "showNat n =
     (if n < 10 then [''0123456789'' ! n]
      else showNat (n div 10) @ [''0123456789'' ! (n mod 10)])"

declare showNat.simps [simp del]

text \<open>
  \<open>Project.findOneAndUpdate({_id}, {$inc: {nextIssueSeq: 1}}, {new: false})\<close>: one store
  operation that adds 1 to the counter and returns the document as it was before, or
  null when no project has the id.
\<close>

definition Project_findOneAndUpdate_inc :: "db \<Rightarrow> ObjectId \<Rightarrow> project option \<times> db" where
  "Project_findOneAndUpdate_inc d pid =
     (Project_findById d pid,
      d\<lparr>projects := updateFirst (\<lambda>p. p_id p = pid)
                         (\<lambda>p. p\<lparr>nextIssueSeq := nextIssueSeq p + 1\<rparr>) (projects d)\<rparr>)"

text \<open>The \<open>pre("validate")\<close> hook of the issue schema; \<open>this\<close> is the issue document.\<close>

definition Issue_preValidate :: "db \<Rightarrow> issue \<Rightarrow> (failure + issue) \<times> db" where
  "Issue_preValidate d this =
     (if (case i_key this of Some k \<Rightarrow> k \<noteq> [] | None \<Rightarrow> False) then (Inr this, d)
      else
       (case Project_findOneAndUpdate_inc d (projectId this) of
          (None, d') \<Rightarrow> (Inl (Thrown ''Project not found for issue key generation.''), d')
        | (Some project, d') \<Rightarrow>
           (Inr (this\<lparr>i_key := Some (p_key project @ ''-'' @ showNat (nextIssueSeq project))\<rparr>),
            d')))"

text \<open>Schema validation of an issue: the title and the four enumerations.\<close>

definition Issue_validate :: "issue \<Rightarrow> bool" where
  "Issue_validate x =
     (trim (title x) \<noteq> [] \<and> length (trim (title x)) \<le> 200 \<and>
      i_type x \<in> set [''bug'', ''task'', ''story''] \<and>
      status x \<in> set [''open'', ''in_progress'', ''blocked'', ''resolved'', ''closed''] \<and>
      priority x \<in> set [''low'', ''medium'', ''high'', ''critical''] \<and>
      severity x \<in> set [''minor'', ''major'', ''critical''] \<and>
      0 \<le> commentCount x)"

text \<open>
  The insert of a new issue: the store refuses a second document with the same \<open>_id\<close>
  or, by the unique index, with the same \<open>key\<close>.
\<close>

definition Issue_insert :: "db \<Rightarrow> issue \<Rightarrow> failure + db" where
  "Issue_insert d x =
     (if list_ex (\<lambda>y. i_id y = i_id x \<or> i_key y = i_key x) (issues d)
      then Inl (Thrown ''E11000 duplicate key'')
      else Inr (d\<lparr>issues := issues d @ [x]\<rparr>))"

text \<open>
  The first \<open>save()\<close> of an issue takes two store operations, and other requests may be
  served between them: the hook (with its \<open>findOneAndUpdate\<close>), after which the document
  is validated, and the insert.  A creation in flight is \<open>Pending\<close> before the hook,
  \<open>Keyed\<close> between the hook and the insert, and \<open>Finished\<close> with its outcome.
\<close>

datatype creation = Pending issue | Keyed issue | Finished "failure + issue"

fun step_creation :: "db \<Rightarrow> creation \<Rightarrow> creation \<times> db" where
  "step_creation d (Pending this) =
     (case Issue_preValidate d this of
        (Inl e, d') \<Rightarrow> (Finished (Inl e), d')
      | (Inr x, d') \<Rightarrow>
         if \<not> Issue_validate x then (Finished (Inl (Thrown ''ValidationError'')), d')
         else (Keyed x, d'))"
| "step_creation d (Keyed x) =
     (case Issue_insert d x of
        Inl e \<Rightarrow> (Finished (Inl e), d)
      | Inr d' \<Rightarrow> (Finished (Inr x), d'))"
| "step_creation d (Finished res) = (Finished res, d)"

text \<open>\<open>save()\<close> of a new issue served without interruption: hook, validation, insert.\<close>

definition Issue_save :: "db \<Rightarrow> issue \<Rightarrow> (failure + issue) \<times> db" where
  "Issue_save d this =
     (case Issue_preValidate d this of
        (Inl e, d') \<Rightarrow> (Inl e, d')
      | (Inr x, d') \<Rightarrow>
         if \<not> Issue_validate x then (Inl (Thrown ''ValidationError''), d')
         else (case Issue_insert d' x of
                 Inl e \<Rightarrow> (Inl e, d')
               | Inr d'' \<Rightarrow> (Inr x, d'')))"

text \<open>
  Concurrent creations: the store serves one operation at a time, in any order.  A
  schedule names, operation by operation, the creation whose next operation is served.
\<close>

fun run_schedule :: "nat list \<Rightarrow> db \<times> creation list \<Rightarrow> db \<times> creation list" where
  "run_schedule [] s = s"
| "run_schedule (i # sched) (d, cs) =
     run_schedule sched
       (if i < length cs
        then (case step_creation d (cs ! i) of (c', d') \<Rightarrow> (d', cs[i := c']))
        else (d, cs))"

text \<open>The key a creation holds once its hook has run and it has not failed.\<close>

fun keyOf :: "creation \<Rightarrow> string option" where
  "keyOf (Pending this) = None"
| "keyOf (Keyed x) = i_key x"
| "keyOf (Finished (Inr x)) = i_key x"
| "keyOf (Finished (Inl e)) = None"

fun isPending :: "creation \<Rightarrow> bool" where
  "isPending (Pending this) = True"
| "isPending (Keyed x) = False"
| "isPending (Finished res) = False"

definition exNewIssue :: "string \<Rightarrow> string \<Rightarrow> issue" where
  "exNewIssue i t = \<lparr>i_id = Oid i, projectId = Oid ''bbbbbbbbbbbbbbbbbbbbbb01'',
     i_key = None, title = t, i_type = ''bug'', status = ''open'',
     priority = ''medium'', severity = ''major'', reporterId = Oid ''aaaaaaaaaaaaaaaaaaaaaa02'',
     commentCount = 0\<rparr>"

text \<open>
  The invariant of concurrent creations for the project \<open>pid\<close> with key \<open>pk\<close> whose
  counter started at \<open>s\<close>: the counter has advanced by the number of creations whose
  hook has run, every key held is \<open>pk-n\<close> for a number \<open>n\<close> handed out so far, no two
  creations hold the same key, creations whose hook has not run are for the project and
  without a key, the others hold a key unless they failed, and the stored issues have
  distinct keys.
\<close>

definition keys_invariant :: "nat \<Rightarrow> string \<Rightarrow> ObjectId \<Rightarrow> db \<times> creation list \<Rightarrow> bool" where
  "keys_invariant s pk pid st =
     (case st of (d, cs) \<Rightarrow>
        (\<exists>p. Project_findById d pid = Some p \<and> p_key p = pk \<and>
             nextIssueSeq p = s + length (filter (\<lambda>c. \<not> isPending c) cs)) \<and>
        (\<forall>this. Pending this \<in> set cs \<longrightarrow> projectId this = pid \<and> i_key this = None) \<and>
        (\<forall>i < length cs. \<forall>k. keyOf (cs ! i) = Some k \<longrightarrow>
           (\<exists>n. s \<le> n \<and> n < s + length (filter (\<lambda>c. \<not> isPending c) cs) \<and>
                k = pk @ ''-'' @ showNat n)) \<and>
        (\<forall>i < length cs. \<forall>j < length cs.
           i \<noteq> j \<longrightarrow> keyOf (cs ! i) \<noteq> None \<longrightarrow> keyOf (cs ! i) \<noteq> keyOf (cs ! j)) \<and>
        (\<forall>x. Keyed x \<in> set cs \<or> Finished (Inr x) \<in> set cs \<longrightarrow> i_key x \<noteq> None) \<and>
        distinct (map i_key (issues d)))"

section \<open>Missing context in the access decisions\<close>









section \<open>Store and context lemmas\<close>

lemma find_updateFirst_same:
  "(\<And>x. P x \<Longrightarrow> P (f x)) \<Longrightarrow> find P (updateFirst P f xs) = map_option f (find P xs)"
  by (induction xs) auto

lemma find_updateFirst_other:
  "(\<And>x. P x \<Longrightarrow> \<not> Q x \<and> \<not> Q (f x)) \<Longrightarrow> find Q (updateFirst P f xs) = find Q xs"
  by (induction xs) auto


lemma String_of_inject: "String_of a = String_of b \<longleftrightarrow> a = b"
  by (cases a; cases b) simp








lemma deleteComment_403:
  "\<not> canEditOrModerate (authUser r) (req_project r) (Some c) \<Longrightarrow> req_comment r = Some rc \<Longrightarrow>
   Comment_findById d (c_id rc) = Some c \<Longrightarrow>
   deleteComment d r = (Inl (Http403 ''Not allowed to delete this comment.''), d)"
  by (simp add: deleteComment_def)

section \<open>Who may edit or soft-delete a comment\<close>




section \<open>Editing a soft-deleted comment\<close>

lemma Comment_save_found:
  "Comment_validate c \<Longrightarrow> Comment_findById d (c_id c) = Some c0 \<Longrightarrow>
   \<exists>d'. Comment_save d c = Inr d' \<and> Comment_findById d' (c_id c) = Some c \<and>
        issues d' = issues d \<and> projects d' = projects d \<and> users d' = users d"
  by (simp add: Comment_save_def Comment_findById_def find_updateFirst_same)

text \<open>
  Claim C10 (as amended).  \<open>updateComment\<close> never consults the \<open>deleted\<close> flag: for an
  authorized caller and a body that is non-empty after trimming and at most 5000
  characters long, editing a soft-deleted comment succeeds; the stored body is replaced
  (by the trimmed text), \<open>edited\<close> is set, \<open>deleted\<close> stays true and no issue changes, so
  no \<open>commentCount\<close> is adjusted.
\<close>

theorem C10_edit_of_deleted_comment:
  assumes "req_comment r = Some rc"
    and "Comment_findById d (c_id rc) = Some doc"
    and "deleted doc"
    and "canEditOrModerate (authUser r) (req_project r) (Some doc)"
    and "trim b \<noteq> []"
    and "length (trim b) \<le> 5000"
  shows "\<exists>d'. updateComment d r (Some b) = (Inr (doc\<lparr>body := trim b, edited := True\<rparr>), d') \<and>
          Comment_findById d' (c_id rc) = Some (doc\<lparr>body := trim b, edited := True\<rparr>) \<and>
          deleted (doc\<lparr>body := trim b, edited := True\<rparr>) \<and>
          issues d' = issues d"
proof -
  let ?doc = "doc\<lparr>body := trim b, edited := True\<rparr>"
  have same: "c_id doc = c_id rc"
    using assms(2) by (auto simp: Comment_findById_def find_Some_iff)
  have valid: "Comment_validate ?doc"
    using assms(3,6) by (simp add: Comment_validate_def)
  have found: "Comment_findById d (c_id ?doc) = Some doc"
    using assms(2) same by simp
  from Comment_save_found [OF valid found] obtain d' where
    d': "Comment_save d ?doc = Inr d'" "Comment_findById d' (c_id ?doc) = Some ?doc"
      "issues d' = issues d"
    by blast
  have "updateComment d r (Some b) = (Inr ?doc, d')"
    using assms d'(1) by (simp add: updateComment_def Let_def)
  with d' same assms(3) show ?thesis by simp
qed

theorem C10_edit_of_deleted_comment_witness:
  "\<exists>d'. updateComment exDb
          \<lparr>authUser = Some exAdmin, req_project = Some exProject, req_issue = Some exIssue,
           req_comment = Some exDeleted\<rparr> (Some '' back again '')
        = (Inr (exDeleted\<lparr>body := ''back again'', edited := True\<rparr>), d') \<and>
        Comment_findById d' (c_id exDeleted)
        = Some (exDeleted\<lparr>body := ''back again'', edited := True\<rparr>) \<and>
        deleted (exDeleted\<lparr>body := ''back again'', edited := True\<rparr>) \<and>
        issues d' = issues exDb"
  using C10_edit_of_deleted_comment
    [of "\<lparr>authUser = Some exAdmin, req_project = Some exProject, req_issue = Some exIssue,
          req_comment = Some exDeleted\<rparr>" exDeleted exDb exDeleted "'' back again ''"]
  by (simp add: Comment_findById_def canEditOrModerate_def trim_def isWhiteSpace_def
      exDb_def exAdmin_def exProject_def exComment_def exReply_def exDeleted_def)

text \<open>
  Claim C10 as stated fails for a body of 5001 characters: it is non-empty after
  trimming, the caller is an admin, and the save is refused by the schema's
  \<open>maxlength\<close>, so the edit does not succeed.
\<close>

theorem C10_counterexample:
  "trim (replicate 5001 (CHR ''x'')) \<noteq> [] \<and>
   canEditOrModerate (Some exAdmin) (Some exProject) (Some exDeleted) \<and>
   updateComment exDb
     \<lparr>authUser = Some exAdmin, req_project = Some exProject, req_issue = Some exIssue,
      req_comment = Some exDeleted\<rparr> (Some (replicate 5001 (CHR ''x'')))
   = (Inl (Thrown ''ValidationError''), exDb)"
  by (simp add: updateComment_def Comment_save_def Comment_validate_def Comment_findById_def
      canEditOrModerate_def trim_def isWhiteSpace_def
      exDb_def exAdmin_def exProject_def exComment_def exReply_def exDeleted_def)

section \<open>Soft delete and the comment counter\<close>

lemma Issue_incCommentCount_same:
  "Issue_findById d j = Some x \<Longrightarrow>
   Issue_findById (Issue_incCommentCount d j n) j = Some (x\<lparr>commentCount := commentCount x + n\<rparr>)"
  by (simp add: Issue_findById_def Issue_incCommentCount_def find_updateFirst_same)

lemma Issue_incCommentCount_other:
  "j \<noteq> k \<Longrightarrow> Issue_findById (Issue_incCommentCount d k n) j = Issue_findById d j"
  unfolding Issue_findById_def Issue_incCommentCount_def
  by (simp, rule find_updateFirst_other) auto

lemma Issue_incCommentCount_comments:
  "comments (Issue_incCommentCount d k n) = comments d"
  by (simp add: Issue_incCommentCount_def)

lemma Comment_findById_incCommentCount:
  "Comment_findById (Issue_incCommentCount d k n) i = Comment_findById d i"
  by (simp add: Comment_findById_def Issue_incCommentCount_def)

text \<open>The three ways \<open>deleteComment\<close> ends for a loaded context.\<close>

lemma deleteComment_already_deleted:
  "req_comment r = Some rc \<Longrightarrow> Comment_findById d (c_id rc) = Some doc \<Longrightarrow>
   canEditOrModerate (authUser r) (req_project r) (Some doc) \<Longrightarrow> deleted doc \<Longrightarrow>
   deleteComment d r = (Inr (), d)"
  by (simp add: deleteComment_def)

lemma deleteComment_first:
  assumes "req_comment r = Some rc" "Comment_findById d (c_id rc) = Some doc"
    "canEditOrModerate (authUser r) (req_project r) (Some doc)" "\<not> deleted doc"
    "req_issue r = Some i"
  shows "\<exists>d1. Comment_save d (doc\<lparr>deleted := True, body := []\<rparr>) = Inr d1 \<and>
          Comment_findById d1 (c_id rc) = Some (doc\<lparr>deleted := True, body := []\<rparr>) \<and>
          issues d1 = issues d \<and>
          deleteComment d r = (Inr (), Issue_incCommentCount d1 (i_id i) (- 1))"
proof -
  let ?doc = "doc\<lparr>deleted := True, body := []\<rparr>"
  have same: "c_id doc = c_id rc"
    using assms(2) by (auto simp: Comment_findById_def find_Some_iff)
  have valid: "Comment_validate ?doc" by (simp add: Comment_validate_def)
  have found: "Comment_findById d (c_id ?doc) = Some doc" using assms(2) same by simp
  from Comment_save_found [OF valid found] obtain d1 where
    d1: "Comment_save d ?doc = Inr d1" "Comment_findById d1 (c_id ?doc) = Some ?doc"
      "issues d1 = issues d"
    by blast
  have "deleteComment d r = (Inr (), Issue_incCommentCount d1 (i_id i) (- 1))"
    using assms d1(1) by (simp add: deleteComment_def)
  with d1 same show ?thesis by simp
qed

lemma deleteComment_failure:
  "fst (deleteComment d r) = Inl e \<Longrightarrow> req_issue r \<noteq> None \<Longrightarrow> snd (deleteComment d r) = d"
  by (auto simp: deleteComment_def Comment_save_def split: option.splits if_splits sum.splits)


text \<open>What a loader has attached when it calls \<open>next()\<close>.\<close>

lemma loadCurrentUser_Inr:
  "loadCurrentUser d tok r = Inr r' \<Longrightarrow> \<exists>u. r' = r\<lparr>authUser := Some u\<rparr> \<and> isActive u"
  by (auto simp: loadCurrentUser_def split: option.splits if_splits)

lemma loadIssue_Inr:
  "loadIssue d idParam r = Inr r' \<Longrightarrow>
   \<exists>i p. Issue_findById d (castObjectId idParam) = Some i \<and>
         Project_findById d (projectId i) = Some p \<and>
         r' = r\<lparr>req_issue := Some i, req_project := Some p\<rparr>"
  by (auto simp: loadIssue_def split: option.splits if_splits)

lemma loadComment_Inr:
  "loadComment d idParam r = Inr r' \<Longrightarrow>
   \<exists>c i p. Comment_findById d (castObjectId idParam) = Some c \<and>
           Issue_findById d (issueId c) = Some i \<and>
           Project_findById d (projectId i) = Some p \<and>
           r' = r\<lparr>req_comment := Some c, req_issue := Some i, req_project := Some p\<rparr>"
  by (auto simp: loadComment_def split: option.splits if_splits)

lemma requireProjectMemberOrAdmin_Inr:
  "requireProjectMemberOrAdmin r = Inr r' \<Longrightarrow> r' = r"
  by (auto simp: requireProjectMemberOrAdmin_def Let_def split: option.splits if_splits)

lemma Issue_findById_id: "Issue_findById d j = Some x \<Longrightarrow> i_id x = j"
  by (auto simp: Issue_findById_def find_Some_iff)

lemma Comment_findById_id: "Comment_findById d j = Some x \<Longrightarrow> c_id x = j"
  by (auto simp: Comment_findById_def find_Some_iff)

text \<open>The ways the DELETE route ends.\<close>

lemma DELETE_comments_id_cases:
  assumes "DELETE_comments_id d tok idParam = (res, d')"
  shows "(\<exists>e. res = Inl e \<and> d' = d) \<or>
         (\<exists>c. Comment_findById d (castObjectId idParam) = Some c \<and> deleted c \<and>
              res = Inr () \<and> d' = d) \<or>
         (\<exists>c d1. Comment_findById d (castObjectId idParam) = Some c \<and> \<not> deleted c \<and>
              res = Inr () \<and> issues d1 = issues d \<and>
              Comment_findById d1 (c_id c) = Some (c\<lparr>deleted := True, body := []\<rparr>) \<and>
              d' = Issue_incCommentCount d1 (issueId c) (- 1))"
proof (cases "loadCurrentUser d tok emptyCtx")
  case (Inl e)
  with assms show ?thesis by (auto simp: DELETE_comments_id_def)
next
  case (Inr r1)
  show ?thesis
  proof (cases "loadComment d idParam r1")
    case (Inl e)
    with assms Inr show ?thesis by (auto simp: DELETE_comments_id_def)
  next
    case r2: (Inr r2)
    from loadComment_Inr [OF r2] obtain c i p where
      c: "Comment_findById d (castObjectId idParam) = Some c"
      and i: "Issue_findById d (issueId c) = Some i"
      and r2_eq: "r2 = r1\<lparr>req_comment := Some c, req_issue := Some i, req_project := Some p\<rparr>"
      by blast
    have rc: "req_comment r2 = Some c" and ri: "req_issue r2 = Some i"
      by (simp_all add: r2_eq)
    have again: "Comment_findById d (c_id c) = Some c"
      using c Comment_findById_id [OF c] by simp
    have ii: "i_id i = issueId c" by (rule Issue_findById_id [OF i])
    show ?thesis
    proof (cases "requireProjectMemberOrAdmin r2")
      case (Inl e)
      with assms Inr r2 show ?thesis by (auto simp: DELETE_comments_id_def)
    next
      case r3: (Inr r3)
      have run: "deleteComment d r2 = (res, d')"
        using assms Inr r2 r3 requireProjectMemberOrAdmin_Inr [OF r3]
        by (simp add: DELETE_comments_id_def)
      show ?thesis
      proof (cases "canEditOrModerate (authUser r2) (req_project r2) (Some c)")
        case False
        from deleteComment_403 [OF False rc again] run show ?thesis by simp
      next
        case can: True
        show ?thesis
        proof (cases "deleted c")
          case True
          from deleteComment_already_deleted [OF rc again can True] run c True
          show ?thesis by simp
        next
          case False
          from deleteComment_first [OF rc again can False ri] obtain d1 where
            "Comment_findById d1 (c_id c) = Some (c\<lparr>deleted := True, body := []\<rparr>)"
            "issues d1 = issues d"
            "deleteComment d r2 = (Inr (), Issue_incCommentCount d1 (i_id i) (- 1))"
            by blast
          with run c False ii show ?thesis by auto
        qed
      qed
    qed
  qed
qed

text \<open>The ways \<open>createComment\<close> and the POST route end.\<close>

lemma createComment_outcome:
  "req_issue r = Some i \<Longrightarrow>
   (case createComment d newId now r idParam reqBody reqParentId of
      (Inl e, d') \<Rightarrow> d' = d
    | (Inr c, d') \<Rightarrow> issueId c = i_id i \<and> c_id c = newId \<and>
         d' = Issue_incCommentCount (d\<lparr>comments := comments d @ [c]\<rparr>) (i_id i) 1)"
  by (simp add: createComment_def Comment_create_def Let_def
      split: option.split sum.split)

lemma createComment_cases:
  assumes "createComment d newId now r idParam reqBody reqParentId = (res, d')"
    and "req_issue r = Some i"
  shows "(\<exists>e. res = Inl e \<and> d' = d) \<or>
         (\<exists>c. res = Inr c \<and> issueId c = i_id i \<and> c_id c = newId \<and>
              d' = Issue_incCommentCount (d\<lparr>comments := comments d @ [c]\<rparr>) (i_id i) 1)"
  using createComment_outcome [OF assms(2), of d newId now idParam reqBody reqParentId] assms(1)
  by (cases res) auto

lemma POST_issues_id_comments_cases:
  assumes "POST_issues_id_comments d newId now tok idParam reqBody reqParentId = (res, d')"
  shows "(\<exists>e. res = Inl e \<and> d' = d) \<or>
         (\<exists>c. res = Inr c \<and> issueId c = castObjectId idParam \<and> c_id c = newId \<and>
              d' = Issue_incCommentCount (d\<lparr>comments := comments d @ [c]\<rparr>) (issueId c) 1)"
proof (cases "loadCurrentUser d tok emptyCtx")
  case (Inl e)
  with assms show ?thesis by (auto simp: POST_issues_id_comments_def)
next
  case (Inr r1)
  show ?thesis
  proof (cases "loadIssue d idParam r1")
    case (Inl e)
    with assms Inr show ?thesis by (auto simp: POST_issues_id_comments_def)
  next
    case r2: (Inr r2)
    from loadIssue_Inr [OF r2] obtain i p where
      i: "Issue_findById d (castObjectId idParam) = Some i"
      and r2_eq: "r2 = r1\<lparr>req_issue := Some i, req_project := Some p\<rparr>"
      by blast
    have ri: "req_issue r2 = Some i" by (simp add: r2_eq)
    have ii: "i_id i = castObjectId idParam" by (rule Issue_findById_id [OF i])
    show ?thesis
    proof (cases "requireProjectMemberOrAdmin r2")
      case (Inl e)
      with assms Inr r2 show ?thesis by (auto simp: POST_issues_id_comments_def)
    next
      case r3: (Inr r3)
      have run: "createComment d newId now r2 idParam reqBody reqParentId = (res, d')"
        using assms Inr r2 r3 requireProjectMemberOrAdmin_Inr [OF r3]
        by (simp add: POST_issues_id_comments_def)
      from createComment_cases [OF run ri] ii show ?thesis by auto
    qed
  qed
qed

text \<open>One request changes the counter of issue \<open>j\<close> by what it is counted as.\<close>

lemma handle_commentCount:
  assumes "Issue_findById d j = Some x"
  shows "\<exists>x'. Issue_findById (handle d q) j = Some x' \<and>
          commentCount x' = commentCount x + (if isCreate d j q then 1 else 0)
                              - (if isFirstDelete d j q then 1 else 0)"
proof (cases q)
  case (CreateRequest newId now tok idParam reqBody reqParentId)
  obtain res d' where
    r: "POST_issues_id_comments d newId now tok idParam reqBody reqParentId = (res, d')"
    by (cases "POST_issues_id_comments d newId now tok idParam reqBody reqParentId")
  from POST_issues_id_comments_cases [OF r] show ?thesis
  proof (elim disjE exE conjE)
    fix e assume "res = Inl e" "d' = d"
    with r assms CreateRequest show ?thesis by simp
  next
    fix c assume c: "res = Inr c"
      "d' = Issue_incCommentCount (d\<lparr>comments := comments d @ [c]\<rparr>) (issueId c) 1"
    have f: "Issue_findById (d\<lparr>comments := comments d @ [c]\<rparr>) j = Some x"
      using assms by (simp add: Issue_findById_def)
    show ?thesis
    proof (cases "issueId c = j")
      case True
      with Issue_incCommentCount_same [OF f, of 1] r c CreateRequest show ?thesis by simp
    next
      case False
      then have "j \<noteq> issueId c" by auto
      from Issue_incCommentCount_other [OF this] f r c CreateRequest False
      show ?thesis by simp
    qed
  qed
next
  case (DeleteRequest tok idParam)
  obtain res d' where r: "DELETE_comments_id d tok idParam = (res, d')"
    by (cases "DELETE_comments_id d tok idParam")
  from DELETE_comments_id_cases [OF r] show ?thesis
  proof (elim disjE exE conjE)
    fix e assume "res = Inl e" "d' = d"
    with r assms DeleteRequest show ?thesis by simp
  next
    fix c assume "Comment_findById d (castObjectId idParam) = Some c" "deleted c"
      "res = Inr ()" "d' = d"
    with r assms DeleteRequest show ?thesis by simp
  next
    fix c d1 assume c: "Comment_findById d (castObjectId idParam) = Some c" "\<not> deleted c"
      "res = Inr ()" "issues d1 = issues d"
      "d' = Issue_incCommentCount d1 (issueId c) (- 1)"
    have f: "Issue_findById d1 j = Some x"
      using assms c(4) by (simp add: Issue_findById_def)
    show ?thesis
    proof (cases "issueId c = j")
      case True
      with Issue_incCommentCount_same [OF f, of "- 1"] r c DeleteRequest show ?thesis by simp
    next
      case False
      then have "j \<noteq> issueId c" by auto
      from Issue_incCommentCount_other [OF this] f r c DeleteRequest False
      show ?thesis by simp
    qed
  qed
qed

lemma run_commentCount:
  "Issue_findById d j = Some x \<Longrightarrow>
   \<exists>x'. Issue_findById (run d qs) j = Some x' \<and>
     commentCount x' = commentCount x + int (creates d j qs) - int (firstDeletes d j qs)"
proof (induction qs arbitrary: d x)
  case Nil
  then show ?case by simp
next
  case (Cons q qs)
  from handle_commentCount [OF Cons.prems, of q] obtain x1 where
    x1: "Issue_findById (handle d q) j = Some x1"
      "commentCount x1 = commentCount x + (if isCreate d j q then 1 else 0)
                              - (if isFirstDelete d j q then 1 else 0)"
    by blast
  from Cons.IH [OF x1(1)] obtain x' where
    "Issue_findById (run (handle d q) qs) j = Some x'"
    "commentCount x' = commentCount x1 + int (creates (handle d q) j qs)
                         - int (firstDeletes (handle d q) j qs)"
    by blast
  with x1(2) show ?case by auto
qed


text \<open>
  Claim C6.  \<open>deleteComment\<close> on an already deleted comment answers 204 and changes
  nothing.  On a comment that is not yet deleted it clears the body, sets \<open>deleted\<close> and
  takes exactly 1 from the \<open>commentCount\<close> of the issue.  Hence, over any sequence of
  create and delete requests, the \<open>commentCount\<close> of an issue moves by the number of
  comments created on it minus the number of first-time soft deletes of its comments.
\<close>

theorem C6_soft_delete_counter:
  "(req_comment r = Some rc \<and> Comment_findById d (c_id rc) = Some doc \<and>
    canEditOrModerate (authUser r) (req_project r) (Some doc) \<and> deleted doc \<longrightarrow>
      deleteComment d r = (Inr (), d)) \<and>
   (req_comment r = Some rc \<and> Comment_findById d (c_id rc) = Some doc \<and>
    canEditOrModerate (authUser r) (req_project r) (Some doc) \<and> \<not> deleted doc \<and>
    req_issue r = Some i \<and> Issue_findById d (i_id i) = Some x \<longrightarrow>
      (\<exists>d'. deleteComment d r = (Inr (), d') \<and>
            Comment_findById d' (c_id rc) = Some (doc\<lparr>deleted := True, body := []\<rparr>) \<and>
            Issue_findById d' (i_id i) = Some (x\<lparr>commentCount := commentCount x - 1\<rparr>))) \<and>
   (Issue_findById d j = Some y \<longrightarrow>
      (\<exists>y'. Issue_findById (run d qs) j = Some y' \<and>
            commentCount y' = commentCount y + int (creates d j qs) - int (firstDeletes d j qs)))"
proof (intro conjI impI)
  assume "req_comment r = Some rc \<and> Comment_findById d (c_id rc) = Some doc \<and>
    canEditOrModerate (authUser r) (req_project r) (Some doc) \<and> deleted doc"
  then show "deleteComment d r = (Inr (), d)"
    by (simp add: deleteComment_already_deleted)
next
  assume a: "req_comment r = Some rc \<and> Comment_findById d (c_id rc) = Some doc \<and>
    canEditOrModerate (authUser r) (req_project r) (Some doc) \<and> \<not> deleted doc \<and>
    req_issue r = Some i \<and> Issue_findById d (i_id i) = Some x"
  then have rc: "req_comment r = Some rc" and doc: "Comment_findById d (c_id rc) = Some doc"
    and can: "canEditOrModerate (authUser r) (req_project r) (Some doc)"
    and nd: "\<not> deleted doc" and ri: "req_issue r = Some i"
    and x: "Issue_findById d (i_id i) = Some x"
    by simp_all
  from deleteComment_first [OF rc doc can nd ri] obtain d1 where
    d1: "Comment_findById d1 (c_id rc) = Some (doc\<lparr>deleted := True, body := []\<rparr>)"
      "issues d1 = issues d"
      "deleteComment d r = (Inr (), Issue_incCommentCount d1 (i_id i) (- 1))"
    by blast
  have "Issue_findById d1 (i_id i) = Some x"
    using x d1(2) by (simp add: Issue_findById_def)
  from Issue_incCommentCount_same [OF this, of "- 1"] d1
  show "\<exists>d'. deleteComment d r = (Inr (), d') \<and>
            Comment_findById d' (c_id rc) = Some (doc\<lparr>deleted := True, body := []\<rparr>) \<and>
            Issue_findById d' (i_id i) = Some (x\<lparr>commentCount := commentCount x - 1\<rparr>)"
    by (simp add: Comment_findById_incCommentCount)
next
  assume "Issue_findById d j = Some y"
  then show "\<exists>y'. Issue_findById (run d qs) j = Some y' \<and>
            commentCount y' = commentCount y + int (creates d j qs) - int (firstDeletes d j qs)"
    by (rule run_commentCount)
qed

lemmas ex_defs =
  exDb_def exAdmin_def exLead_def exDev_def exOther_def exProject_def exIssue_def
  exComment_def exReply_def exDeleted_def

lemmas store_defs =
  User_findById_def Comment_findById_def Issue_findById_def Project_findById_def
  castObjectId_def toLowerHex_def isValidId_def isHex_def

theorem C6_soft_delete_counter_witness:
  "deleteComment exDb
     \<lparr>authUser = Some exAdmin, req_project = Some exProject, req_issue = Some exIssue,
      req_comment = Some exDeleted\<rparr> = (Inr (), exDb) \<and>
   (\<exists>d'. deleteComment exDb
            \<lparr>authUser = Some exAdmin, req_project = Some exProject, req_issue = Some exIssue,
             req_comment = Some exComment\<rparr> = (Inr (), d') \<and>
         Comment_findById d' (c_id exComment) = Some (exComment\<lparr>deleted := True, body := []\<rparr>) \<and>
         Issue_findById d' (i_id exIssue) = Some (exIssue\<lparr>commentCount := 1\<rparr>)) \<and>
   (\<exists>y'. Issue_findById
           (run exDb [DeleteRequest (Some ''aaaaaaaaaaaaaaaaaaaaaa02'') ''dddddddddddddddddddddd01'',
                      DeleteRequest (Some ''aaaaaaaaaaaaaaaaaaaaaa02'') ''dddddddddddddddddddddd01''])
           (i_id exIssue) = Some y' \<and> commentCount y' = 1)"
proof -
  let ?qs = "[DeleteRequest (Some ''aaaaaaaaaaaaaaaaaaaaaa02'') ''dddddddddddddddddddddd01'',
              DeleteRequest (Some ''aaaaaaaaaaaaaaaaaaaaaa02'') ''dddddddddddddddddddddd01'']"
  have one: "DELETE_comments_id exDb (Some ''aaaaaaaaaaaaaaaaaaaaaa02'') ''dddddddddddddddddddddd01''
     = (Inr (), exDb\<lparr>comments := [exComment\<lparr>deleted := True, body := []\<rparr>, exReply, exDeleted],
                     issues := [exIssue\<lparr>commentCount := 1\<rparr>]\<rparr>)"
    by (simp add: DELETE_comments_id_def loadCurrentUser_def loadComment_def emptyCtx_def
        requireProjectMemberOrAdmin_def deleteComment_def canEditOrModerate_def
        Comment_save_def Comment_validate_def Issue_incCommentCount_def store_defs ex_defs)
  have two: "DELETE_comments_id
       (exDb\<lparr>comments := [exComment\<lparr>deleted := True, body := []\<rparr>, exReply, exDeleted],
              issues := [exIssue\<lparr>commentCount := 1\<rparr>]\<rparr>)
       (Some ''aaaaaaaaaaaaaaaaaaaaaa02'') ''dddddddddddddddddddddd01''
     = (Inr (), exDb\<lparr>comments := [exComment\<lparr>deleted := True, body := []\<rparr>, exReply, exDeleted],
                     issues := [exIssue\<lparr>commentCount := 1\<rparr>]\<rparr>)"
    by (simp add: DELETE_comments_id_def loadCurrentUser_def loadComment_def emptyCtx_def
        requireProjectMemberOrAdmin_def deleteComment_def canEditOrModerate_def
        Comment_save_def Comment_validate_def Issue_incCommentCount_def store_defs ex_defs)
  have found: "Comment_findById exDb (castObjectId ''dddddddddddddddddddddd01'') = Some exComment"
    by (simp add: store_defs ex_defs)
  have nd: "\<not> deleted exComment" "issueId exComment = i_id exIssue"
    by (simp_all add: ex_defs)
  have found2: "Comment_findById
       (exDb\<lparr>comments := [exComment\<lparr>deleted := True, body := []\<rparr>, exReply, exDeleted],
              issues := [exIssue\<lparr>commentCount := 1\<rparr>]\<rparr>)
       (castObjectId ''dddddddddddddddddddddd01'') = Some (exComment\<lparr>deleted := True, body := []\<rparr>)"
    by (simp add: store_defs ex_defs)
  have cr: "creates exDb (i_id exIssue) ?qs = 0" by simp
  have fd: "firstDeletes exDb (i_id exIssue) ?qs = 1"
    by (simp add: one two found found2 nd)
  have iss: "Issue_findById exDb (i_id exIssue) = Some exIssue" "commentCount exIssue = 2"
    by (simp_all add: store_defs ex_defs)
  from C6_soft_delete_counter
    [of "\<lparr>authUser = Some exAdmin, req_project = Some exProject, req_issue = Some exIssue,
          req_comment = Some exDeleted\<rparr>" exDeleted exDb exDeleted exIssue exIssue
        "i_id exIssue" exIssue ?qs]
  have A: "deleteComment exDb
     \<lparr>authUser = Some exAdmin, req_project = Some exProject, req_issue = Some exIssue,
      req_comment = Some exDeleted\<rparr> = (Inr (), exDb)"
    and C: "\<exists>y'. Issue_findById (run exDb ?qs) (i_id exIssue) = Some y' \<and> commentCount y' = 1"
    unfolding cr fd using iss
    by (simp_all add: canEditOrModerate_def store_defs ex_defs)
  from C6_soft_delete_counter
    [of "\<lparr>authUser = Some exAdmin, req_project = Some exProject, req_issue = Some exIssue,
          req_comment = Some exComment\<rparr>" exComment exDb exComment exIssue exIssue
        "i_id exIssue" exIssue "[]"]
  have B: "\<exists>d'. deleteComment exDb
            \<lparr>authUser = Some exAdmin, req_project = Some exProject, req_issue = Some exIssue,
             req_comment = Some exComment\<rparr> = (Inr (), d') \<and>
         Comment_findById d' (c_id exComment) = Some (exComment\<lparr>deleted := True, body := []\<rparr>) \<and>
         Issue_findById d' (i_id exIssue) = Some (exIssue\<lparr>commentCount := 1\<rparr>)"
    using iss by (simp add: canEditOrModerate_def store_defs ex_defs)
  from A B C show ?thesis by blast
qed

section \<open>Ancestor chains of created comments\<close>

lemma find_append_new:
  "\<not> list_ex P xs \<Longrightarrow> P c \<Longrightarrow> find P (xs @ [c]) = Some c"
  by (induction xs) auto

lemma Comment_findById_append:
  "\<not> list_ex (\<lambda>x. c_id x = i) (comments d) \<Longrightarrow> c_id c = i \<Longrightarrow>
   Comment_findById (d\<lparr>comments := comments d @ [c]\<rparr>) i = Some c"
  by (simp add: Comment_findById_def find_append_new)

lemma createComment_chain_outcome:
  "(case createComment d newId now r idParam reqBody reqParentId of
      (Inl e, d') \<Rightarrow> True
    | (Inr c, d') \<Rightarrow>
        Comment_findById d' newId = Some c \<and>
        parentId c = map_option castObjectId reqParentId \<and>
        (case reqParentId of
           None \<Rightarrow> ancestors c = []
         | Some pid \<Rightarrow>
            (case Comment_findById d (castObjectId pid) of
               None \<Rightarrow> False
             | Some P \<Rightarrow> parentId c = Some (c_id P) \<and> ancestors c = ancestors P @ [c_id P] \<and>
                         issueId c = issueId P)))"
  by (auto simp: createComment_def Comment_create_def Let_def String_of_inject
      Comment_findById_incCommentCount Comment_findById_append
      split: option.split sum.split dest: Comment_findById_id)


lemma createComment_other_issue:
  "isValidId idParam \<Longrightarrow> req_issue r = Some i \<Longrightarrow> req_project r = Some p \<Longrightarrow>
   authUser r = Some u \<Longrightarrow> trim b \<noteq> [] \<Longrightarrow> isValidId pid \<Longrightarrow>
   Comment_findById d (castObjectId pid) = Some P \<Longrightarrow> issueId P \<noteq> i_id i \<Longrightarrow>
   createComment d newId now r idParam (Some b) (Some pid)
   = (Inl (Http400 ''Parent belongs to a different issue.''), d)"
  by (simp add: createComment_def String_of_inject)

text \<open>
  Claim C5.  A comment that \<open>createComment\<close> creates is stored under its new id; without
  a parent id in the request it is top-level with the empty ancestor list; with a parent
  id it is the child of the stored parent \<open>P\<close>, its ancestors are those of \<open>P\<close> followed
  by the id of \<open>P\<close>, and it belongs to the issue of \<open>P\<close>.  A parent that belongs to
  another issue than the target issue is refused with 400 and nothing is stored.
\<close>

theorem C5_ancestor_chain:
  "(createComment d newId now r idParam reqBody reqParentId = (Inr c, d') \<longrightarrow>
      Comment_findById d' newId = Some c \<and>
      (reqParentId = None \<longrightarrow> parentId c = None \<and> ancestors c = []) \<and>
      (\<forall>s. reqParentId = Some s \<longrightarrow>
         (\<exists>P. Comment_findById d (castObjectId s) = Some P \<and> parentId c = Some (c_id P) \<and>
              ancestors c = ancestors P @ [c_id P] \<and> issueId c = issueId P))) \<and>
   (isValidId idParam \<and> req_issue r = Some i \<and> req_project r = Some p \<and>
    authUser r = Some u \<and> reqBody = Some b \<and> trim b \<noteq> [] \<and>
    reqParentId = Some pid \<and> isValidId pid \<and>
    Comment_findById d (castObjectId pid) = Some Q \<and> issueId Q \<noteq> i_id i \<longrightarrow>
      createComment d newId now r idParam reqBody reqParentId
      = (Inl (Http400 ''Parent belongs to a different issue.''), d))"
proof (intro conjI impI allI)
  assume created: "createComment d newId now r idParam reqBody reqParentId = (Inr c, d')"
  note outcome = createComment_chain_outcome
    [where d = d and newId = newId and now = now and r = r and idParam = idParam
       and reqBody = reqBody and reqParentId = reqParentId]
  show "Comment_findById d' newId = Some c"
    using outcome created by simp
  show "parentId c = None" if "reqParentId = None"
    using outcome created that by simp
  show "ancestors c = []" if "reqParentId = None"
    using outcome created that by simp
  show "\<exists>P. Comment_findById d (castObjectId s) = Some P \<and> parentId c = Some (c_id P) \<and>
              ancestors c = ancestors P @ [c_id P] \<and> issueId c = issueId P"
    if "reqParentId = Some s" for s
    using outcome created that by (auto split: option.splits)
next
  assume "isValidId idParam \<and> req_issue r = Some i \<and> req_project r = Some p \<and>
    authUser r = Some u \<and> reqBody = Some b \<and> trim b \<noteq> [] \<and>
    reqParentId = Some pid \<and> isValidId pid \<and>
    Comment_findById d (castObjectId pid) = Some Q \<and> issueId Q \<noteq> i_id i"
  then show "createComment d newId now r idParam reqBody reqParentId
      = (Inl (Http400 ''Parent belongs to a different issue.''), d)"
    by (simp add: createComment_other_issue)
qed

text \<open>
  The thread of the example: the top-level comment \<open>exComment\<close>, its reply \<open>exReply\<close>,
  and a new reply to \<open>exReply\<close>, which gets both as its ancestors; and a reply across
  issues, which is refused.
\<close>

theorem C5_ancestor_chain_witness:
  "\<exists>c d'. createComment exDb (Oid ''dddddddddddddddddddddd04'') 40
       \<lparr>authUser = Some exDev, req_project = Some exProject, req_issue = Some exIssue,
        req_comment = None\<rparr>
       ''cccccccccccccccccccccc01'' (Some ''third'') (Some ''dddddddddddddddddddddd02'')
     = (Inr c, d') \<and>
     Comment_findById d' (Oid ''dddddddddddddddddddddd04'') = Some c \<and>
     parentId c = Some (c_id exReply) \<and>
     ancestors c = [c_id exComment, c_id exReply] \<and> issueId c = issueId exReply \<and>
     createComment exDb (Oid ''dddddddddddddddddddddd04'') 40
       \<lparr>authUser = Some exDev, req_project = Some exProject,
        req_issue = Some (exIssue\<lparr>i_id := Oid ''cccccccccccccccccccccc02''\<rparr>),
        req_comment = None\<rparr>
       ''cccccccccccccccccccccc02'' (Some ''third'') (Some ''dddddddddddddddddddddd02'')
     = (Inl (Http400 ''Parent belongs to a different issue.''), exDb)"
proof -
  let ?r = "\<lparr>authUser = Some exDev, req_project = Some exProject, req_issue = Some exIssue,
        req_comment = None\<rparr>"
  let ?r2 = "\<lparr>authUser = Some exDev, req_project = Some exProject,
        req_issue = Some (exIssue\<lparr>i_id := Oid ''cccccccccccccccccccccc02''\<rparr>),
        req_comment = None\<rparr>"
  obtain res d' where run: "createComment exDb (Oid ''dddddddddddddddddddddd04'') 40 ?r
       ''cccccccccccccccccccccc01'' (Some ''third'') (Some ''dddddddddddddddddddddd02'')
     = (res, d')"
    by (cases "createComment exDb (Oid ''dddddddddddddddddddddd04'') 40 ?r
       ''cccccccccccccccccccccc01'' (Some ''third'') (Some ''dddddddddddddddddddddd02'')")
  have "\<exists>c. res = Inr c"
    using run
    by (auto simp: createComment_def Comment_create_def Comment_validate_def Let_def
        trim_def isWhiteSpace_def store_defs ex_defs)
  then obtain c where c: "res = Inr c" by blast
  have parent: "Comment_findById exDb (castObjectId ''dddddddddddddddddddddd02'') = Some exReply"
    by (simp add: store_defs ex_defs)
  have chain: "ancestors exReply @ [c_id exReply] = [c_id exComment, c_id exReply]"
    by (simp add: ex_defs)
  from C5_ancestor_chain
    [of exDb "Oid ''dddddddddddddddddddddd04''" 40 ?r "''cccccccccccccccccccccc01''"
        "Some ''third''" "Some ''dddddddddddddddddddddd02''" c d']
    run c parent chain
  have A: "Comment_findById d' (Oid ''dddddddddddddddddddddd04'') = Some c \<and>
     parentId c = Some (c_id exReply) \<and>
     ancestors c = [c_id exComment, c_id exReply] \<and> issueId c = issueId exReply"
    by auto
  from C5_ancestor_chain
    [of exDb "Oid ''dddddddddddddddddddddd04''" 40 ?r2 "''cccccccccccccccccccccc02''"
        "Some ''third''" "Some ''dddddddddddddddddddddd02''" c d'
        "exIssue\<lparr>i_id := Oid ''cccccccccccccccccccccc02''\<rparr>" exProject exDev "''third''"
        "''dddddddddddddddddddddd02''" exReply]
    parent
  have B: "createComment exDb (Oid ''dddddddddddddddddddddd04'') 40 ?r2
       ''cccccccccccccccccccccc02'' (Some ''third'') (Some ''dddddddddddddddddddddd02'')
     = (Inl (Http400 ''Parent belongs to a different issue.''), exDb)"
    by (simp add: trim_def isWhiteSpace_def isValidId_def isHex_def ex_defs)
  from run c A B show ?thesis by blast
qed

section \<open>Listings\<close>

lemma parseInt_examples:
  "parseInt ''0'' = Some 0" "parseInt ''20'' = Some 20" "parseInt '' -7x'' = Some (- 7)"
  "parseInt ''abc'' = None" "parseInt ''150'' = Some 150"
  by (simp_all add: parseInt_def isWhiteSpace_def isDigit_def decimalValue_def digitValue_def)

lemma length_cursor_sort: "length (cursor_sort cs) = length cs"
  by (simp add: cursor_sort_def)

lemma set_cursor_sort: "set (cursor_sort cs) = set cs"
  by (simp add: cursor_sort_def)

lemma sorted_cursor_sort:
  "sorted (map (\<lambda>c. (createdAt c, String_of (c_id c))) (cursor_sort cs))"
  by (simp add: cursor_sort_def)

text \<open>
  With a positive limit the top-level listing is a page of at most 100 of the issue's
  top-level comments that are not deleted, in the order of creation time and id.
\<close>

lemma listIssueComments_positive_limit:
  assumes "isValidId idParam" "req_issue r = Some i"
    and "parseInt (queryOr qLimit ''20'') = Some n" "0 < n"
    and "parseInt (queryOr qSkip ''0'') = Some k"
  shows "\<exists>cs. listIssueComments d r idParam qLimit qSkip = Inr (cs, max k 0, min n 100) \<and>
          cs = take (nat (min n 100)) (drop (nat (max k 0))
                 (cursor_sort (filter (\<lambda>c. issueId c = i_id i \<and> parentId c = None \<and> \<not> deleted c)
                    (comments d)))) \<and>
          length cs \<le> 100 \<and>
          sorted (map (\<lambda>c. (createdAt c, String_of (c_id c))) cs)"
proof -
  let ?all = "cursor_sort (filter (\<lambda>c. issueId c = i_id i \<and> parentId c = None \<and> \<not> deleted c)
                    (comments d))"
  have "sorted (map (\<lambda>c. (createdAt c, String_of (c_id c))) ?all)"
    by (rule sorted_cursor_sort)
  then have "sorted (map (\<lambda>c. (createdAt c, String_of (c_id c)))
      (take (nat (min n 100)) (drop (nat (max k 0)) ?all)))"
    by (simp add: take_map [symmetric] drop_map [symmetric] sorted_wrt_take sorted_wrt_drop)
  moreover have "min n 100 \<noteq> 0" "nat (min n 100) \<le> 100" "\<bar>min n 100\<bar> = min n 100"
    using assms(4) by auto
  ultimately show ?thesis
    using assms(1,2,3,5)
    by (simp add: listIssueComments_def Comment_find_def cursor_limit_def min.coboundedI2)
qed

text \<open>
  Claim C9 at the limit 0.  The query \<open>limit=0\<close> passes \<open>Math.min(0, 100)\<close> to the cursor,
  for which 0 is no limit: the top-level listing of the busy issue returns all its 102
  comments, and the listing of the replies to \<open>exComment\<close> returns all 201.
\<close>

theorem C9_limit_zero:
  "(\<exists>cs. listIssueComments exBusyDb
           \<lparr>authUser = Some exDev, req_project = Some exProject, req_issue = Some exIssue,
            req_comment = None\<rparr>
           ''cccccccccccccccccccccc01'' (Some ''0'') None = Inr (cs, 0, 0) \<and>
        length cs = 102) \<and>
   (\<exists>cs. listReplies exBusyDb
           \<lparr>authUser = Some exDev, req_project = Some exProject, req_issue = Some exIssue,
            req_comment = Some exComment\<rparr>
           ''dddddddddddddddddddddd01'' (Some ''0'') None = Inr cs \<and>
        length cs = 201)"
  by (simp add: listIssueComments_def listReplies_def Comment_find_def cursor_limit_def
      length_cursor_sort queryOr_def parseInt_examples isValidId_def isHex_def exBusyDb_def
      exIssue_def exComment_def exTopLevel_def exReplyTo_def filter_map comp_def)

section \<open>The lead among the members\<close>

lemma set_Array_from_Set: "set (Array_from_Set xs) = set xs"
  by (simp add: Array_from_Set_def)

lemma distinct_Array_from_Set: "distinct (Array_from_Set xs)"
  by (simp add: Array_from_Set_def)

lemma set_addToSet: "set (addToSet ms vs) = set ms \<union> set vs"
  unfolding addToSet_def by (induction vs arbitrary: ms) auto

lemma set_pull: "set (pull ms vs) = set ms - set vs"
  by (auto simp: pull_def)

lemma Project_findById_id: "Project_findById d j = Some x \<Longrightarrow> p_id x = j"
  by (auto simp: Project_findById_def find_Some_iff)

lemma Project_findById_append:
  "\<not> list_ex (\<lambda>x. p_id x = i) (projects d) \<Longrightarrow> p_id p = i \<Longrightarrow>
   Project_findById (d\<lparr>projects := projects d @ [p]\<rparr>) i = Some p"
  by (simp add: Project_findById_def find_append_new)

lemma Project_findById_updateFirst:
  "(\<And>p. p_id (f p) = p_id p) \<Longrightarrow>
   find (\<lambda>p. p_id p = i) (updateFirst (\<lambda>p. p_id p = i) f ps) = map_option f (find (\<lambda>p. p_id p = i) ps)"
  by (rule find_updateFirst_same) simp

text \<open>\<open>createProject\<close> stores the lead among the members.\<close>

lemma createProject_lead_member:
  "(case createProject d newId reqKey reqName reqDescription reqLead reqMembers of
      (Inl e, d') \<Rightarrow> d' = d
    | (Inr p, d') \<Rightarrow> leadUserId p \<in> set (members p) \<and> nextIssueSeq p = 1 \<and>
         Project_findById d' newId = Some p)"
  by (simp add: createProject_def Let_def set_Array_from_Set Project_findById_append
      split: option.split)

text \<open>A lead change by \<open>updateProject\<close> leaves the new lead among the members.\<close>

lemma updateProject_lead_member:
  assumes "updateProject d r reqName reqDescription (Some lead) = (Inr res, d')"
    and "req_project r = Some rp" and "Project_findById d (p_id rp) = Some p0"
  shows "\<exists>p'. Project_findById d' (p_id rp) = Some p' \<and> leadUserId p' = castObjectId lead \<and>
          leadUserId p' \<in> set (members p')"
  using assms
  by (auto simp: updateProject_def Let_def Project_findById_def Project_findById_updateFirst
      set_addToSet split: if_splits)

text \<open>Every refusal of \<open>updateMembers\<close> leaves the store as it was.\<close>

lemma updateMembers_failure_unchanged:
  "fst (updateMembers d r reqAdd reqRemove) = Inl e \<Longrightarrow>
   snd (updateMembers d r reqAdd reqRemove) = d"
  by (auto simp: updateMembers_def Let_def split: option.splits if_splits)

text \<open>
  The guard of \<open>updateMembers\<close> compares strings: a remove list that holds the lead's id
  as the store prints it is refused with 400.
\<close>

lemma updateMembers_lead_printed:
  assumes "req_project r = Some rp" and "String_of (leadUserId rp) \<in> set reqRemove"
    and "String_of (leadUserId rp) \<noteq> []"
    and "list_all isValidId (filter (\<lambda>s. s \<noteq> []) (reqAdd @ reqRemove))"
    and "User_countDocuments_in d (Array_from_Set (filter (\<lambda>s. s \<noteq> []) (reqAdd @ reqRemove)))
         = length (Array_from_Set (filter (\<lambda>s. s \<noteq> []) (reqAdd @ reqRemove)))"
  shows "updateMembers d r reqAdd reqRemove
         = (Inl (Http400 ''Cannot remove the project lead from members.''), d)"
proof -
  have none: "find (\<lambda>uid. \<not> isValidId uid)
      (filter (\<lambda>s. s \<noteq> []) reqAdd @ filter (\<lambda>s. s \<noteq> []) reqRemove) = None"
    using assms(4) by (auto simp: find_None_iff list_all_iff)
  have "list_ex (\<lambda>s. s = String_of (leadUserId rp)) (filter (\<lambda>s. s \<noteq> []) reqRemove)"
    using assms(2,3) by (auto simp: list_ex_iff)
  then show ?thesis
    using assms(1,5) none by (simp add: updateMembers_def Let_def)
qed

text \<open>
  The existence check: when the ids of the users are distinct and some id of the request
  names no user, the batched count differs from the number of ids and the request is
  refused with 400.
\<close>

lemma User_countDocuments_in_card:
  assumes "distinct (map u_id (users d))"
  shows "User_countDocuments_in d ids
         = card (castObjectId ` set ids \<inter> u_id ` set (users d))"
proof -
  let ?C = "castObjectId ` set ids"
  have "distinct (map u_id (filter (\<lambda>u. u_id u \<in> ?C) (users d)))"
    using assms by (rule distinct_map_filter)
  then have "length (filter (\<lambda>u. u_id u \<in> ?C) (users d))
      = card (set (map u_id (filter (\<lambda>u. u_id u \<in> ?C) (users d))))"
    by (metis distinct_card length_map)
  also have "set (map u_id (filter (\<lambda>u. u_id u \<in> ?C) (users d))) = ?C \<inter> u_id ` set (users d)"
    by force
  finally show ?thesis by (simp add: User_countDocuments_in_def)
qed

lemma updateMembers_unknown_user:
  assumes "distinct (map u_id (users d))"
    and "list_all isValidId (filter (\<lambda>s. s \<noteq> []) (reqAdd @ reqRemove))"
    and "s \<in> set (reqAdd @ reqRemove)" "s \<noteq> []"
    and "User_findById d (castObjectId s) = None"
  shows "updateMembers d r reqAdd reqRemove
         = (Inl (Http400 ''One or more user ids do not exist.''), d)"
proof -
  let ?ids = "filter (\<lambda>s. s \<noteq> []) reqAdd @ filter (\<lambda>s. s \<noteq> []) reqRemove"
  let ?all = "Array_from_Set ?ids"
  let ?C = "castObjectId ` set ?all"
  let ?U = "u_id ` set (users d)"
  have none: "find (\<lambda>uid. \<not> isValidId uid) ?ids = None"
    using assms(2) by (auto simp: find_None_iff list_all_iff)
  have s_in: "castObjectId s \<in> ?C"
    using assms(3,4) by (auto simp: set_Array_from_Set)
  have s_out: "castObjectId s \<notin> ?U"
    using assms(5) by (auto simp: User_findById_def find_None_iff)
  have "?C \<inter> ?U \<subset> ?C" using s_in s_out by auto
  then have "card (?C \<inter> ?U) < card ?C" by (simp add: psubset_card_mono)
  also have "card ?C \<le> card (set ?all)" by (simp add: card_image_le)
  also have "card (set ?all) = length ?all"
    by (simp add: distinct_card distinct_Array_from_Set)
  finally have "User_countDocuments_in d ?all \<noteq> length ?all"
    by (simp add: User_countDocuments_in_card [OF assms(1)])
  then show ?thesis using none by (simp add: updateMembers_def Let_def)
qed

text \<open>
  What the guard achieves: when every id of the remove list is spelled in lower case
  (as the store prints ids), a successful \<open>updateMembers\<close> keeps the lead among the
  members.
\<close>

lemma toLowerHex_fixed_inject:
  "map toLowerHex s = s \<Longrightarrow> castObjectId s = i \<Longrightarrow> s = String_of i"
  by (auto simp: castObjectId_def)

lemma updateMembers_keeps_lead:
  assumes "updateMembers d r reqAdd reqRemove = (Inr res, d')"
    and "req_project r = Some rp" and "Project_findById d (p_id rp) = Some rp"
    and "leadUserId rp \<in> set (members rp)"
    and "\<forall>s \<in> set reqRemove. map toLowerHex s = s"
  shows "\<exists>p'. Project_findById d' (p_id rp) = Some p' \<and> res = Some p' \<and>
          leadUserId p' = leadUserId rp \<and> leadUserId p' \<in> set (members p')"
proof -
  let ?rm = "filter (\<lambda>s. s \<noteq> []) reqRemove"
  have guard: "\<not> list_ex (\<lambda>s. s = String_of (leadUserId rp)) ?rm"
    using assms(1,2) by (auto simp: updateMembers_def Let_def split: option.splits if_splits)
  have "leadUserId rp \<notin> set (map createFromHexString ?rm)"
  proof
    assume "leadUserId rp \<in> set (map createFromHexString ?rm)"
    then obtain s where s: "s \<in> set ?rm" "castObjectId s = leadUserId rp"
      by (auto simp: createFromHexString_def castObjectId_def)
    then have "map toLowerHex s = s" using assms(5) by auto
    from toLowerHex_fixed_inject [OF this s(2)] s(1) guard show False
      by (auto simp: list_ex_iff)
  qed
  then show ?thesis
    using assms(1-4)
    by (auto simp: updateMembers_def Let_def Project_findById_def Project_findById_updateFirst
        set_pull set_addToSet split: option.splits if_splits)
qed

text \<open>
  Claim C3 at the request that names the lead in upper case.  The lead \<open>exLead\<close> of
  \<open>exProject\<close> is among its members; the request to remove
  \<open>AAAAAAAAAAAAAAAAAAAAAA01\<close>, the lead's id in upper-case digits, is answered 200, and
  afterwards the stored project still has \<open>exLead\<close> as its lead but no longer among its
  members.
\<close>

theorem C3_lead_removed_by_upper_case_id:
  "leadUserId exProject = u_id exLead \<and> leadUserId exProject \<in> set (members exProject) \<and>
   (\<exists>p' d'. POST_projects_id_members exDb (Some ''aaaaaaaaaaaaaaaaaaaaaa00'')
       ''bbbbbbbbbbbbbbbbbbbbbb01'' [] [''AAAAAAAAAAAAAAAAAAAAAA01'']
     = (Inr (Some p'), d') \<and>
     Project_findById d' (p_id exProject) = Some p' \<and>
     leadUserId p' = u_id exLead \<and> leadUserId p' \<notin> set (members p'))"
  by (simp add: POST_projects_id_members_def loadCurrentUser_def loadProject_def emptyCtx_def
      requireProjectLeadOrAdmin_def updateMembers_def Array_from_Set_def
      User_countDocuments_in_def createFromHexString_def addToSet_def pull_def Let_def
      store_defs ex_defs)

text \<open>
  Claim C4 at the same remove list, in the controller.  The list names one id, which is
  the id of the lead (\<open>createFromHexString\<close> reads it as \<open>leadUserId\<close>); the call is not
  refused and the members of the stored project change.
\<close>

theorem C4_lead_in_remove_not_rejected:
  "createFromHexString ''AAAAAAAAAAAAAAAAAAAAAA01'' = leadUserId exProject \<and>
   (\<exists>p' d'. updateMembers exDb
       \<lparr>authUser = Some exLead, req_project = Some exProject, req_issue = None,
        req_comment = None\<rparr> [] [''AAAAAAAAAAAAAAAAAAAAAA01'']
     = (Inr (Some p'), d') \<and>
     Project_findById d' (p_id exProject) = Some p' \<and>
     members p' \<noteq> members exProject)"
  by (simp add: updateMembers_def Array_from_Set_def
      User_countDocuments_in_def createFromHexString_def addToSet_def pull_def Let_def
      store_defs ex_defs)

section \<open>Issue keys\<close>

lemma showNat_nonempty: "showNat n \<noteq> []"
  by (subst showNat.simps) simp

lemma digit_char_inject:
  "a < 10 \<Longrightarrow> b < 10 \<Longrightarrow> ''0123456789'' ! a = ''0123456789'' ! b \<Longrightarrow> a = b"
proof -
  assume "a < 10" "b < 10" "''0123456789'' ! a = ''0123456789'' ! b"
  moreover have "distinct ''0123456789''" by simp
  ultimately show "a = b" by (simp add: nth_eq_iff_index_eq)
qed

lemma showNat_inject: "showNat m = showNat n \<Longrightarrow> m = n"
proof (induction m arbitrary: n rule: showNat.induct)
  case (1 m)
  show ?case
  proof (cases "m < 10")
    case small: True
    show ?thesis
    proof (cases "n < 10")
      case True
      with small "1.prems" have "''0123456789'' ! m = ''0123456789'' ! n"
        by (subst (asm) (2) showNat.simps, subst (asm) showNat.simps) simp
      with small True show ?thesis by (rule digit_char_inject)
    next
      case False
      with small "1.prems" showNat_nonempty [of "n div 10"] show ?thesis
        by (subst (asm) (2) showNat.simps, subst (asm) showNat.simps) simp
    qed
  next
    case big: False
    show ?thesis
    proof (cases "n < 10")
      case True
      with big "1.prems" showNat_nonempty [of "m div 10"] show ?thesis
        by (subst (asm) (2) showNat.simps, subst (asm) showNat.simps) simp
    next
      case False
      from big False "1.prems"
      have eq: "showNat (m div 10) @ [''0123456789'' ! (m mod 10)]
              = showNat (n div 10) @ [''0123456789'' ! (n mod 10)]"
        by (subst (asm) (2) showNat.simps, subst (asm) showNat.simps) simp
      then have "showNat (m div 10) = showNat (n div 10)"
        and "''0123456789'' ! (m mod 10) = ''0123456789'' ! (n mod 10)"
        by simp_all
      with "1.IH" [OF big] have "m div 10 = n div 10" and "m mod 10 = n mod 10"
        by (auto intro: digit_char_inject)
      then show ?thesis by (metis div_mult_mod_eq)
    qed
  qed
qed



lemma Project_findOneAndUpdate_inc_found:
  "Project_findById d pid = Some p \<Longrightarrow>
   \<exists>d'. Project_findOneAndUpdate_inc d pid = (Some p, d') \<and>
        Project_findById d' pid = Some (p\<lparr>nextIssueSeq := nextIssueSeq p + 1\<rparr>) \<and>
        issues d' = issues d"
  by (simp add: Project_findOneAndUpdate_inc_def Project_findById_def Project_findById_updateFirst)







section \<open>Concurrent issue creations\<close>

lemma length_filter_update:
  "i < length cs \<Longrightarrow>
   length (filter P (cs[i := c])) + (if P (cs ! i) then 1 else 0)
   = length (filter P cs) + (if P c then 1 else 0)"
proof (induction cs arbitrary: i)
  case Nil
  then show ?case by simp
next
  case (Cons a cs)
  then show ?case by (cases i) auto
qed

lemma key_text_inject:
  "pk @ ''-'' @ showNat m = pk @ ''-'' @ showNat n \<Longrightarrow> m = n"
  by (simp add: showNat_inject)

lemma step_creation_Pending:
  assumes "Project_findById d pid = Some p" "projectId this = pid" "i_key this = None"
    and "step_creation d (Pending this) = (c', d')"
  shows "Project_findById d' pid = Some (p\<lparr>nextIssueSeq := nextIssueSeq p + 1\<rparr>)"
    and "issues d' = issues d" and "\<not> isPending c'"
    and "keyOf c' = None \<or> keyOf c' = Some (p_key p @ ''-'' @ showNat (nextIssueSeq p))"
    and "\<forall>x. c' = Keyed x \<or> c' = Finished (Inr x) \<longrightarrow> i_key x \<noteq> None"
proof -
  from Project_findOneAndUpdate_inc_found [OF assms(1)] obtain d1 where
    d1: "Project_findOneAndUpdate_inc d pid = (Some p, d1)"
      "Project_findById d1 pid = Some (p\<lparr>nextIssueSeq := nextIssueSeq p + 1\<rparr>)"
      "issues d1 = issues d"
    by blast
  have hook: "Issue_preValidate d this
      = (Inr (this\<lparr>i_key := Some (p_key p @ ''-'' @ showNat (nextIssueSeq p))\<rparr>), d1)"
    using assms(2,3) d1(1) by (simp add: Issue_preValidate_def)
  from assms(4) hook have "d' = d1" by (auto split: if_splits)
  with d1 show "Project_findById d' pid = Some (p\<lparr>nextIssueSeq := nextIssueSeq p + 1\<rparr>)"
    and "issues d' = issues d" by simp_all
  from assms(4) hook show "\<not> isPending c'" by (auto split: if_splits)
  from assms(4) hook
  show "keyOf c' = None \<or> keyOf c' = Some (p_key p @ ''-'' @ showNat (nextIssueSeq p))"
    by (auto split: if_splits)
  from assms(4) hook
  show "\<forall>x. c' = Keyed x \<or> c' = Finished (Inr x) \<longrightarrow> i_key x \<noteq> None"
    by (auto split: if_splits)
qed

lemma Issue_insert_distinct:
  assumes "Issue_insert d x = Inr d'" and "distinct (map i_key (issues d))"
  shows "distinct (map i_key (issues d'))" and "projects d' = projects d"
proof -
  from assms(1) have no: "\<not> list_ex (\<lambda>y. i_id y = i_id x \<or> i_key y = i_key x) (issues d)"
    and d': "d' = d\<lparr>issues := issues d @ [x]\<rparr>"
    by (auto simp: Issue_insert_def split: if_splits)
  from no have "i_key x \<notin> i_key ` set (issues d)"
    unfolding list_ex_iff by force
  with assms(2) d' show "distinct (map i_key (issues d'))" by simp
  from d' show "projects d' = projects d" by simp
qed

lemma step_creation_Keyed:
  assumes "step_creation d (Keyed x) = (c', d')" and "distinct (map i_key (issues d))"
  shows "projects d' = projects d" and "\<not> isPending c'"
    and "keyOf c' = None \<or> keyOf c' = keyOf (Keyed x)"
    and "distinct (map i_key (issues d'))"
    and "\<forall>y. c' = Keyed y \<or> c' = Finished (Inr y) \<longrightarrow> y = x"
proof -
  show "projects d' = projects d" and "distinct (map i_key (issues d'))"
    using assms Issue_insert_distinct [of d x]
    by (auto split: sum.splits)
  show "\<not> isPending c'" and "keyOf c' = None \<or> keyOf c' = keyOf (Keyed x)"
    and "\<forall>y. c' = Keyed y \<or> c' = Finished (Inr y) \<longrightarrow> y = x"
    using assms(1) by (auto split: sum.splits)
qed

lemma keys_invariantD:
  assumes "keys_invariant s pk pid (d, cs)"
  shows "\<exists>p. Project_findById d pid = Some p \<and> p_key p = pk \<and>
             nextIssueSeq p = s + length (filter (\<lambda>c. \<not> isPending c) cs)"
    and "\<forall>this. Pending this \<in> set cs \<longrightarrow> projectId this = pid \<and> i_key this = None"
    and "\<forall>i < length cs. \<forall>k. keyOf (cs ! i) = Some k \<longrightarrow>
           (\<exists>n. s \<le> n \<and> n < s + length (filter (\<lambda>c. \<not> isPending c) cs) \<and>
                k = pk @ ''-'' @ showNat n)"
    and "\<forall>i < length cs. \<forall>j < length cs.
           i \<noteq> j \<longrightarrow> keyOf (cs ! i) \<noteq> None \<longrightarrow> keyOf (cs ! i) \<noteq> keyOf (cs ! j)"
    and "\<forall>x. Keyed x \<in> set cs \<or> Finished (Inr x) \<in> set cs \<longrightarrow> i_key x \<noteq> None"
    and "distinct (map i_key (issues d))"
  using assms unfolding keys_invariant_def prod.case by blast+

text \<open>Serving one operation keeps the invariant.\<close>

lemma step_keeps_invariant:
  assumes inv: "keys_invariant s pk pid (d, cs)" and i: "i < length cs"
    and step: "step_creation d (cs ! i) = (c', d')"
  shows "keys_invariant s pk pid (d', cs[i := c'])"
proof -
  let ?m = "length (filter (\<lambda>c. \<not> isPending c) cs)"
  let ?m' = "length (filter (\<lambda>c. \<not> isPending c) (cs[i := c']))"
  from keys_invariantD(1) [OF inv] obtain p where
    p: "Project_findById d pid = Some p" "p_key p = pk" "nextIssueSeq p = s + ?m"
    by blast
  note pend = keys_invariantD(2) [OF inv, rule_format]
    and keys = keys_invariantD(3) [OF inv, rule_format]
    and dist = keys_invariantD(4) [OF inv, rule_format]
    and held = keys_invariantD(5) [OF inv, rule_format]
    and db = keys_invariantD(6) [OF inv]
  note count = length_filter_update [OF i, of "\<lambda>c. \<not> isPending c" c']
  show ?thesis
  proof (cases "cs ! i")
    case (Pending this)
    then have "Pending this \<in> set cs" using i by (metis nth_mem)
    from pend [OF this] have doc: "projectId this = pid" "i_key this = None" by simp_all
    from step Pending have step': "step_creation d (Pending this) = (c', d')" by simp
    note st = step_creation_Pending [OF p(1) doc step']
    have m': "?m' = Suc ?m" using count Pending st(3) by simp
    have new: "keyOf c' = None \<or> keyOf c' = Some (pk @ ''-'' @ showNat (s + ?m))"
      using st(4) p by simp
    have old: "keyOf (cs ! i) = None" using Pending by simp
    have P1: "\<exists>p. Project_findById d' pid = Some p \<and> p_key p = pk \<and> nextIssueSeq p = s + ?m'"
      using st(1) p m' by simp
    have P2: "\<forall>this. Pending this \<in> set (cs[i := c']) \<longrightarrow> projectId this = pid \<and> i_key this = None"
    proof (intro allI impI)
      fix t assume "Pending t \<in> set (cs[i := c'])"
      then have "Pending t \<in> insert c' (set cs)" using set_update_subset_insert by fast
      with st(3) have "Pending t \<in> set cs" by auto
      then show "projectId t = pid \<and> i_key t = None" by (rule pend)
    qed
    have P3: "\<forall>j < length (cs[i := c']). \<forall>k. keyOf (cs[i := c'] ! j) = Some k \<longrightarrow>
           (\<exists>n. s \<le> n \<and> n < s + ?m' \<and> k = pk @ ''-'' @ showNat n)"
    proof (intro allI impI)
      fix j k assume j: "j < length (cs[i := c'])" and k: "keyOf (cs[i := c'] ! j) = Some k"
      show "\<exists>n. s \<le> n \<and> n < s + ?m' \<and> k = pk @ ''-'' @ showNat n"
      proof (cases "j = i")
        case True
        with k i new have "k = pk @ ''-'' @ showNat (s + ?m)" by simp
        then show ?thesis using m' by (intro exI [of _ "s + ?m"]) simp
      next
        case False
        with j k keys [of j k] obtain n where "s \<le> n" "n < s + ?m" "k = pk @ ''-'' @ showNat n"
          by auto
        then show ?thesis using m' by (intro exI [of _ n]) simp
      qed
    qed
    have P4: "\<forall>a < length (cs[i := c']). \<forall>b < length (cs[i := c']).
           a \<noteq> b \<longrightarrow> keyOf (cs[i := c'] ! a) \<noteq> None \<longrightarrow>
           keyOf (cs[i := c'] ! a) \<noteq> keyOf (cs[i := c'] ! b)"
    proof (intro allI impI)
      fix a b assume a: "a < length (cs[i := c'])" and b: "b < length (cs[i := c'])"
        and ab: "a \<noteq> b" and some: "keyOf (cs[i := c'] ! a) \<noteq> None"
      show "keyOf (cs[i := c'] ! a) \<noteq> keyOf (cs[i := c'] ! b)"
      proof (cases "a = i")
        case True
        with some i new have ka: "keyOf (cs[i := c'] ! a) = Some (pk @ ''-'' @ showNat (s + ?m))"
          by auto
        show ?thesis
        proof
          assume eq: "keyOf (cs[i := c'] ! a) = keyOf (cs[i := c'] ! b)"
          with ka True ab have "keyOf (cs ! b) = Some (pk @ ''-'' @ showNat (s + ?m))" by simp
          with keys [of b] b obtain n where "n < s + ?m"
            "pk @ ''-'' @ showNat (s + ?m) = pk @ ''-'' @ showNat n" by auto
          then show False using key_text_inject [of pk "s + ?m" n] by simp
        qed
      next
        case na: False
        then have ka: "keyOf (cs[i := c'] ! a) = keyOf (cs ! a)" by simp
        show ?thesis
        proof (cases "b = i")
          case True
          show ?thesis
          proof
            assume eq: "keyOf (cs[i := c'] ! a) = keyOf (cs[i := c'] ! b)"
            with ka some True i new
            have "keyOf (cs ! a) = Some (pk @ ''-'' @ showNat (s + ?m))" by auto
            with keys [of a] a obtain n where "n < s + ?m"
              "pk @ ''-'' @ showNat (s + ?m) = pk @ ''-'' @ showNat n" by auto
            then show False using key_text_inject [of pk "s + ?m" n] by simp
          qed
        next
          case False
          with na a b ab some dist [of a b] show ?thesis by simp
        qed
      qed
    qed
    have P5: "distinct (map i_key (issues d'))" using st(2) db by simp
    have P6: "\<forall>x. Keyed x \<in> set (cs[i := c']) \<or> Finished (Inr x) \<in> set (cs[i := c'])
                \<longrightarrow> i_key x \<noteq> None"
    proof (intro allI impI)
      fix x assume "Keyed x \<in> set (cs[i := c']) \<or> Finished (Inr x) \<in> set (cs[i := c'])"
      then have "Keyed x \<in> insert c' (set cs) \<or> Finished (Inr x) \<in> insert c' (set cs)"
        using set_update_subset_insert by fast
      with st(5) held [of x] show "i_key x \<noteq> None" by auto
    qed
    from P1 P2 P3 P4 P5 P6 show ?thesis unfolding keys_invariant_def by simp
  next
    case (Keyed x)
    from step Keyed have step': "step_creation d (Keyed x) = (c', d')" by simp
    note st = step_creation_Keyed [OF step' db]
    have m': "?m' = ?m" using count Keyed st(2) by simp
    have new: "keyOf c' = None \<or> keyOf c' = keyOf (cs ! i)" using st(3) Keyed by simp
    have P1: "\<exists>p. Project_findById d' pid = Some p \<and> p_key p = pk \<and> nextIssueSeq p = s + ?m'"
      using st(1) p m' by (simp add: Project_findById_def)
    have P2: "\<forall>this. Pending this \<in> set (cs[i := c']) \<longrightarrow> projectId this = pid \<and> i_key this = None"
    proof (intro allI impI)
      fix t assume "Pending t \<in> set (cs[i := c'])"
      then have "Pending t \<in> insert c' (set cs)" using set_update_subset_insert by fast
      with st(2) have "Pending t \<in> set cs" by auto
      then show "projectId t = pid \<and> i_key t = None" by (rule pend)
    qed
    have sub: "\<And>j k. j < length cs \<Longrightarrow> keyOf (cs[i := c'] ! j) = Some k \<Longrightarrow>
                 keyOf (cs ! j) = Some k"
      using new i by (auto simp: nth_list_update split: if_splits)
    have P3: "\<forall>j < length (cs[i := c']). \<forall>k. keyOf (cs[i := c'] ! j) = Some k \<longrightarrow>
           (\<exists>n. s \<le> n \<and> n < s + ?m' \<and> k = pk @ ''-'' @ showNat n)"
      using keys sub m' by auto
    have P4: "\<forall>a < length (cs[i := c']). \<forall>b < length (cs[i := c']).
           a \<noteq> b \<longrightarrow> keyOf (cs[i := c'] ! a) \<noteq> None \<longrightarrow>
           keyOf (cs[i := c'] ! a) \<noteq> keyOf (cs[i := c'] ! b)"
    proof (intro allI impI)
      fix a b assume a: "a < length (cs[i := c'])" and b: "b < length (cs[i := c'])"
        and ab: "a \<noteq> b" and some: "keyOf (cs[i := c'] ! a) \<noteq> None"
      then obtain k where k: "keyOf (cs[i := c'] ! a) = Some k" by auto
      with a sub have ka: "keyOf (cs ! a) = Some k" by simp
      show "keyOf (cs[i := c'] ! a) \<noteq> keyOf (cs[i := c'] ! b)"
      proof
        assume "keyOf (cs[i := c'] ! a) = keyOf (cs[i := c'] ! b)"
        with k have "keyOf (cs[i := c'] ! b) = Some k" by simp
        with b sub have "keyOf (cs ! b) = Some k" by simp
        with ka dist [of a b] a b ab show False by simp
      qed
    qed
    have P6: "\<forall>y. Keyed y \<in> set (cs[i := c']) \<or> Finished (Inr y) \<in> set (cs[i := c'])
                \<longrightarrow> i_key y \<noteq> None"
    proof (intro allI impI)
      fix y assume "Keyed y \<in> set (cs[i := c']) \<or> Finished (Inr y) \<in> set (cs[i := c'])"
      then have "Keyed y \<in> insert c' (set cs) \<or> Finished (Inr y) \<in> insert c' (set cs)"
        using set_update_subset_insert by fast
      moreover have "Keyed x \<in> set cs" using Keyed i by (metis nth_mem)
      ultimately show "i_key y \<noteq> None" using st(5) held [of y] held [of x] by auto
    qed
    from P1 P2 P3 P4 st(4) P6 show ?thesis unfolding keys_invariant_def by simp
  next
    case (Finished res)
    with step have "c' = cs ! i" "d' = d" by simp_all
    with inv show ?thesis by simp
  qed
qed

lemma run_schedule_keeps_invariant:
  "keys_invariant s pk pid st \<Longrightarrow> keys_invariant s pk pid (run_schedule sched st)"
proof (induction sched arbitrary: st)
  case Nil
  then show ?case by simp
next
  case (Cons i sched)
  obtain d cs where st: "st = (d, cs)" by (cases st)
  show ?case
  proof (cases "i < length cs")
    case True
    obtain c' d' where step: "step_creation d (cs ! i) = (c', d')"
      by (cases "step_creation d (cs ! i)")
    from step_keeps_invariant [OF Cons.prems [unfolded st] True step]
    have "keys_invariant s pk pid (d', cs[i := c'])" .
    from Cons.IH [OF this] show ?thesis using st True step by simp
  next
    case False
    with Cons st show ?thesis by simp
  qed
qed

lemma run_schedule_length:
  "run_schedule sched (d, cs) = (d', cs') \<Longrightarrow> length cs' = length cs"
proof (induction sched arbitrary: d cs)
  case Nil
  then show ?case by simp
next
  case (Cons i sched)
  then show ?case by (auto split: if_splits prod.splits)
qed


lemma initial_invariant:
  assumes "Project_findById d pid = Some p"
    and "\<forall>this \<in> set docs. projectId this = pid \<and> i_key this = None"
    and "distinct (map i_key (issues d))"
  shows "keys_invariant (nextIssueSeq p) (p_key p) pid (d, map Pending docs)"
proof -
  have "filter (\<lambda>c. \<not> isPending c) (map Pending docs) = []"
    by (induction docs) simp_all
  then show ?thesis using assms unfolding keys_invariant_def by auto
qed

text \<open>
  Claim C2.  Let the creations of the issues \<open>docs\<close>, all without a key and for the
  project \<open>p\<close>, be served operation by operation in any order \<open>sched\<close>.  Then at every
  moment the stored issues have distinct keys; two creations never hold the same key;
  every key held is the project key, a dash and a number from the \<open>length docs\<close>
  numbers that start at the counter's first value; and when all creations have
  succeeded their keys are exactly those numbers, without a gap.
\<close>

theorem C2_concurrent_keys_distinct:
  assumes "Project_findById d pid = Some p"
    and "\<forall>this \<in> set docs. projectId this = pid \<and> i_key this = None"
    and "distinct (map i_key (issues d))"
    and "run_schedule sched (d, map Pending docs) = (d', cs')"
  shows "distinct (map i_key (issues d')) \<and>
    (\<forall>i < length cs'. \<forall>j < length cs'.
       i \<noteq> j \<longrightarrow> keyOf (cs' ! i) \<noteq> None \<longrightarrow> keyOf (cs' ! i) \<noteq> keyOf (cs' ! j)) \<and>
    (\<forall>i < length cs'. \<forall>k. keyOf (cs' ! i) = Some k \<longrightarrow>
       (\<exists>n. nextIssueSeq p \<le> n \<and> n < nextIssueSeq p + length docs \<and>
            k = p_key p @ ''-'' @ showNat n)) \<and>
    ((\<forall>c \<in> set cs'. \<exists>x. c = Finished (Inr x)) \<longrightarrow>
       keyOf ` set cs'
       = (\<lambda>n. Some (p_key p @ ''-'' @ showNat n)) `
           {nextIssueSeq p ..< nextIssueSeq p + length docs})"
proof -
  let ?s = "nextIssueSeq p" and ?N = "length docs"
  let ?K = "\<lambda>n. Some (p_key p @ ''-'' @ showNat n)"
  let ?m = "length (filter (\<lambda>c. \<not> isPending c) cs')"
  have len: "length cs' = ?N"
    using run_schedule_length [OF assms(4)] by simp
  have "keys_invariant ?s (p_key p) pid (run_schedule sched (d, map Pending docs))"
    by (rule run_schedule_keeps_invariant) (rule initial_invariant [OF assms(1-3)])
  then have inv: "keys_invariant ?s (p_key p) pid (d', cs')" using assms(4) by simp
  note keys = keys_invariantD(3) [OF inv, rule_format]
    and dist = keys_invariantD(4) [OF inv, rule_format]
    and held = keys_invariantD(5) [OF inv, rule_format]
    and db = keys_invariantD(6) [OF inv]
  have m: "?m \<le> ?N" using len length_filter_le [of "\<lambda>c. \<not> isPending c" cs'] by simp
  have range: "\<forall>i < length cs'. \<forall>k. keyOf (cs' ! i) = Some k \<longrightarrow>
       (\<exists>n. ?s \<le> n \<and> n < ?s + ?N \<and> k = p_key p @ ''-'' @ showNat n)"
  proof (intro allI impI)
    fix i k assume "i < length cs'" "keyOf (cs' ! i) = Some k"
    from keys [OF this] obtain n where "?s \<le> n" "n < ?s + ?m" "k = p_key p @ ''-'' @ showNat n"
      by blast
    with m show "\<exists>n. ?s \<le> n \<and> n < ?s + ?N \<and> k = p_key p @ ''-'' @ showNat n"
      by (intro exI [of _ n]) simp
  qed
  have full: "keyOf ` set cs' = ?K ` {?s ..< ?s + ?N}"
    if all: "\<forall>c \<in> set cs'. \<exists>x. c = Finished (Inr x)"
  proof -
    have some: "keyOf (cs' ! i) \<noteq> None" if "i < length cs'" for i
    proof -
      from that all obtain x where x: "cs' ! i = Finished (Inr x)" by (metis nth_mem)
      then have "Finished (Inr x) \<in> set cs'" using that by (metis nth_mem)
      with held [of x] x show ?thesis by simp
    qed
    have inj: "inj_on (\<lambda>i. keyOf (cs' ! i)) {..<length cs'}"
      using dist some by (auto simp: inj_on_def)
    have img: "keyOf ` set cs' = (\<lambda>i. keyOf (cs' ! i)) ` {..<length cs'}"
      by (auto simp: set_conv_nth image_iff)
    have cardA: "card (keyOf ` set cs') = ?N"
      using inj len by (simp add: img card_image)
    have injK: "inj_on ?K {?s ..< ?s + ?N}"
      by (auto simp: inj_on_def dest: showNat_inject)
    have cardB: "card (?K ` {?s ..< ?s + ?N}) = ?N"
      using injK by (simp add: card_image)
    have sub: "keyOf ` set cs' \<subseteq> ?K ` {?s ..< ?s + ?N}"
    proof
      fix y assume "y \<in> keyOf ` set cs'"
      then obtain i where i: "i < length cs'" "y = keyOf (cs' ! i)"
        unfolding img by auto
      with some [OF i(1)] obtain k where k: "keyOf (cs' ! i) = Some k" by auto
      with range i obtain n where "?s \<le> n" "n < ?s + ?N" "k = p_key p @ ''-'' @ showNat n"
        by blast
      with k i show "y \<in> ?K ` {?s ..< ?s + ?N}" by auto
    qed
    have "finite (?K ` {?s ..< ?s + ?N})" by simp
    from card_subset_eq [OF this sub] cardA cardB show ?thesis by simp
  qed
  from db dist range full show ?thesis by blast
qed


text \<open>
  Two creations for \<open>exProject\<close>, whose counter is at 2, served interleaved (hook of the
  first, hook of the second, insert of the second, insert of the first): the keys are
  \<open>BT-2\<close> and \<open>BT-3\<close>.
\<close>

theorem C2_concurrent_keys_distinct_witness:
  "\<exists>d'. run_schedule [0, 1, 1, 0]
          (exDb, map Pending [exNewIssue ''cccccccccccccccccccccc02'' ''Crash'',
                              exNewIssue ''cccccccccccccccccccccc03'' ''Hang''])
        = (d', [Finished (Inr (exNewIssue ''cccccccccccccccccccccc02'' ''Crash''
                                 \<lparr>i_key := Some ''BT-2''\<rparr>)),
                Finished (Inr (exNewIssue ''cccccccccccccccccccccc03'' ''Hang''
                                 \<lparr>i_key := Some ''BT-3''\<rparr>))]) \<and>
        distinct (map i_key (issues d')) \<and>
        {Some ''BT-2'', Some ''BT-3''} = (\<lambda>n. Some (''BT-'' @ showNat n)) ` {2 ..< 4}"
proof -
  let ?a = "exNewIssue ''cccccccccccccccccccccc02'' ''Crash''"
  let ?b = "exNewIssue ''cccccccccccccccccccccc03'' ''Hang''"
  let ?cs = "[Finished (Inr (?a\<lparr>i_key := Some ''BT-2''\<rparr>)),
              Finished (Inr (?b\<lparr>i_key := Some ''BT-3''\<rparr>))]"
  have run: "run_schedule [0, 1, 1, 0] (exDb, map Pending [?a, ?b])
      = (exDb\<lparr>projects := [exProject\<lparr>nextIssueSeq := 4\<rparr>],
               issues := [exIssue, ?b\<lparr>i_key := Some ''BT-3''\<rparr>, ?a\<lparr>i_key := Some ''BT-2''\<rparr>]\<rparr>,
         ?cs)"
    by (simp add: Issue_preValidate_def Project_findOneAndUpdate_inc_def Issue_validate_def
        Issue_insert_def showNat.simps trim_def isWhiteSpace_def exNewIssue_def
        store_defs ex_defs)
  have proj: "Project_findById exDb (Oid ''bbbbbbbbbbbbbbbbbbbbbb01'') = Some exProject"
    by (simp add: store_defs ex_defs)
  have docs: "\<forall>this \<in> set [?a, ?b].
      projectId this = Oid ''bbbbbbbbbbbbbbbbbbbbbb01'' \<and> i_key this = None"
    by (simp add: exNewIssue_def)
  have db: "distinct (map i_key (issues exDb))"
    by (simp add: ex_defs)
  have all: "\<forall>c \<in> set ?cs. \<exists>x. c = Finished (Inr x)" by simp
  have p: "nextIssueSeq exProject = 2" "p_key exProject = ''BT''" by (simp_all add: ex_defs)
  from C2_concurrent_keys_distinct [OF proj docs db run] all
  have dist: "distinct (map i_key
          (issues (exDb\<lparr>projects := [exProject\<lparr>nextIssueSeq := 4\<rparr>],
               issues := [exIssue, ?b\<lparr>i_key := Some ''BT-3''\<rparr>, ?a\<lparr>i_key := Some ''BT-2''\<rparr>]\<rparr>)))"
    and full: "keyOf ` set ?cs = (\<lambda>n. Some (p_key exProject @ ''-'' @ showNat n)) `
           {nextIssueSeq exProject ..< nextIssueSeq exProject + length [?a, ?b]}"
    by blast+
  have keys: "{Some ''BT-2'', Some ''BT-3''} = (\<lambda>n. Some (''BT-'' @ showNat n)) ` {2 ..< 4}"
    using full unfolding p by simp
  from run dist keys show ?thesis by blast
qed

text \<open>\<open>save()\<close> is the two operations of a creation served without interruption.\<close>

lemma Issue_save_two_operations:
  "run_schedule [0, 0] (d, [Pending this])
   = (snd (Issue_save d this), [Finished (fst (Issue_save d this))])"
  by (simp add: Issue_save_def split: prod.split sum.split)

end
